theory Spec2Isabelle
  imports Main "HOL-Library.AList"
begin

section \<open>The export crawler of onenote\_export.py\<close>

text \<open>
  The crawler of \<^verbatim>\<open>onenote_export.py\<close>: the fetch loop \<^verbatim>\<open>get\<close>, the pagination reader
  \<^verbatim>\<open>get_json\<close>, the selection filter \<^verbatim>\<open>filter_items\<close>, the walker
  (\<^verbatim>\<open>download_notebooks\<close>, \<^verbatim>\<open>download_section_groups\<close>, \<^verbatim>\<open>download_sections\<close>,
  \<^verbatim>\<open>download_pages\<close>), the page materializer \<^verbatim>\<open>download_page\<close> and the attachment
  resolver \<^verbatim>\<open>download_attachments\<close>.

  Every function threads a \<open>world\<close>: the requests issued so far, the seconds slept, and
  the file system. A raised exception is the value \<open>Inl e\<close>, returned with the world as
  it was when the exception was raised (no function of the program catches an
  exception). A call that never returns has the value \<open>None\<close>. Console output
  (\<^verbatim>\<open>indent_print\<close>, \<^verbatim>\<open>print\<close>) changes no control flow and is not modelled, and
  neither is the \<^verbatim>\<open>indent\<close> argument that only feeds it.
\<close>

subsection \<open>Exceptions\<close>

datatype error =
    HTTPError int
  | RuntimeError
  | AttributeError
  | KeyError string
  | TypeError
  | ValueError
  | UnboundLocalError
  | FileExistsError
  | FileNotFoundError
  | NotADirectoryError
  | IsADirectoryError

subsection \<open>Remote records\<close>

text \<open>
  An item of a list response is a dictionary; the program reads the keys below. A key
  that is absent is \<open>None\<close>: \<^verbatim>\<open>item[k]\<close> then raises \<^verbatim>\<open>KeyError\<close> and
  \<^verbatim>\<open>item.get(k)\<close> gives \<^verbatim>\<open>None\<close>. Two items are equal, as Python dictionaries are,
  when all their keys agree.
\<close>

record item =
  displayName :: "string option"
  title :: "string option"
  sectionsUrl :: "string option"
  sectionGroupsUrl :: "string option"
  pagesUrl :: "string option"
  contentUrl :: "string option"
  order :: "int option"
  level :: "int option"

text \<open>
  The body of a list response as \<^verbatim>\<open>resp.json()\<close> gives it: the key \<^verbatim>\<open>'value'\<close> and the
  key \<^verbatim>\<open>'@odata.nextLink'\<close>, each present or absent.
\<close>

record listing =
  value_field :: "item list option"
  odata_nextLink :: "string option"

text \<open>
  A response: its status code, what \<^verbatim>\<open>.json()\<close> returns (\<open>None\<close> when the body is not
  JSON and \<^verbatim>\<open>.json()\<close> raises), and its body as \<^verbatim>\<open>.text\<close> and \<^verbatim>\<open>.content\<close> give it.
\<close>

record response =
  status_code :: int
  json :: "listing option"
  content :: string

type_synonym params = "(string \<times> string) list"

type_synonym request = "string \<times> params option"

text \<open>
  \<^verbatim>\<open>graph_client.get(url, params=params)\<close>: the remote answers a request knowing the
  requests it has received before, so that it can throttle a request and serve it later.
\<close>

type_synonym client = "request list \<Rightarrow> request \<Rightarrow> response"

subsection \<open>Paths and the file system\<close>

text \<open>
  A path is the list of its parts, as \<^verbatim>\<open>Path.parts\<close> on a POSIX host; an absolute path
  starts with the part \<open>''/''\<close>, and \<open>[]\<close> is the current directory. The file system
  maps a path to a file with its contents or to a directory. The parts \<open>..\<close> and
  symbolic links are not interpreted.
\<close>

type_synonym path = "string list"

datatype node = File string | Dir

type_synonym filesystem = "path \<Rightarrow> node option"

record world =
  requests :: "request list"
  slept :: nat
  fs :: filesystem

type_synonym 'a result = "((error + 'a) \<times> world) option"

definition bind_res :: "'a result \<Rightarrow> ('a \<Rightarrow> world \<Rightarrow> 'b result) \<Rightarrow> 'b result" where
  "bind_res m k =
     (case m of
        None \<Rightarrow> None
      | Some (Inl e, w) \<Rightarrow> Some (Inl e, w)
      | Some (Inr x, w) \<Rightarrow> k x w)"

fun split_on :: "char \<Rightarrow> string \<Rightarrow> string list" where
  "split_on d [] = [[]]"
| "split_on d (c # cs) =
     (if c = d then [] # split_on d cs
      else (case split_on d cs of
              [] \<Rightarrow> [[c]]
            | s # ss \<Rightarrow> (c # s) # ss))"

text \<open>
  \<^verbatim>\<open>path / s\<close>: the parts of \<open>s\<close> are appended, empty parts and \<open>.\<close> dropped; when
  \<open>s\<close> starts with a slash the result is the absolute path \<open>s\<close> alone.
\<close>

definition str_parts :: "string \<Rightarrow> string list" where
  "str_parts s = filter (\<lambda>x. x \<noteq> [] \<and> x \<noteq> ''.'') (split_on CHR ''/'' s)"

definition path_div :: "path \<Rightarrow> string \<Rightarrow> path" where
  "path_div p s =
     (if take 1 s = ''/'' then ''/'' # str_parts s else p @ str_parts s)"

definition node_at :: "filesystem \<Rightarrow> path \<Rightarrow> node option" where
  "node_at f p = (if p = [] \<or> p = [''/''] then Some Dir else f p)"

definition path_exists :: "world \<Rightarrow> path \<Rightarrow> bool" where
  "path_exists w p = (node_at (fs w) p \<noteq> None)"

definition is_dir :: "filesystem \<Rightarrow> path \<Rightarrow> bool" where
  "is_dir f p = (node_at f p = Some Dir)"

text \<open>\<^verbatim>\<open>os.mkdir(p)\<close>.\<close>

definition os_mkdir :: "filesystem \<Rightarrow> path \<Rightarrow> error + filesystem" where
  "os_mkdir f p =
     (if node_at f p \<noteq> None then Inl FileExistsError
      else (case node_at f (butlast p) of
              None \<Rightarrow> Inl FileNotFoundError
            | Some (File x) \<Rightarrow> Inl NotADirectoryError
            | Some Dir \<Rightarrow> Inr (f(p \<mapsto> Dir))))"

text \<open>\<^verbatim>\<open>p.mkdir(exist_ok=True)\<close>, as pathlib writes it over \<^verbatim>\<open>os.mkdir\<close>.\<close>

definition mkdir_exist_ok :: "filesystem \<Rightarrow> path \<Rightarrow> error + filesystem" where
  "mkdir_exist_ok f p =
     (case os_mkdir f p of
        Inr f' \<Rightarrow> Inr f'
      | Inl FileNotFoundError \<Rightarrow> Inl FileNotFoundError
      | Inl e \<Rightarrow> (if is_dir f p then Inr f else Inl e))"

text \<open>\<^verbatim>\<open>p.mkdir(parents=True, exist_ok=True)\<close>.\<close>

function mkdir_parents :: "filesystem \<Rightarrow> path \<Rightarrow> error + filesystem" where
  "mkdir_parents f p =
     (case os_mkdir f p of
        Inr f' \<Rightarrow> Inr f'
      | Inl FileNotFoundError \<Rightarrow>
          (if butlast p = p then Inl FileNotFoundError
           else (case mkdir_parents f (butlast p) of
                   Inl e \<Rightarrow> Inl e
                 | Inr f1 \<Rightarrow> mkdir_exist_ok f1 p))
      | Inl e \<Rightarrow> (if is_dir f p then Inr f else Inl e))"
  by pat_completeness auto
termination
  by (relation "measure (\<lambda>(f, p). length p)") (auto simp: butlast_conv_take)

declare mkdir_parents.simps [simp del]

text \<open>\<^verbatim>\<open>with open(p, "w") as f: f.write(data)\<close>, and the same with \<^verbatim>\<open>"wb"\<close>.\<close>

definition open_write :: "filesystem \<Rightarrow> path \<Rightarrow> string \<Rightarrow> error + filesystem" where
  "open_write f p data =
     (case node_at f p of
        Some Dir \<Rightarrow> Inl IsADirectoryError
      | _ \<Rightarrow> (case node_at f (butlast p) of
                None \<Rightarrow> Inl FileNotFoundError
              | Some (File x) \<Rightarrow> Inl NotADirectoryError
              | Some Dir \<Rightarrow> Inr (f(p \<mapsto> File data))))"

subsection \<open>The fetch client\<close>

text \<open>
  \<^verbatim>\<open>resp.raise_for_status()\<close> of the requests library raises \<^verbatim>\<open>HTTPError\<close> for the
  client errors 400 to 499 and the server errors 500 to 599, and for nothing else.
\<close>

definition raise_for_status :: "response \<Rightarrow> error + unit" where
  "raise_for_status resp =
     (if 400 \<le> status_code resp \<and> status_code resp < 600
      then Inl (HTTPError (status_code resp)) else Inr ())"

partial_function (option) get ::
  "client \<Rightarrow> string \<Rightarrow> params option \<Rightarrow> world \<Rightarrow> (response option) result" where
  "get graph_client url params w =
     (let resp = graph_client (requests w) (url, params);
          w1 = w\<lparr>requests := requests w @ [(url, params)]\<rparr>
      in if status_code resp = 429
         then get graph_client url params (w1\<lparr>slept := slept w1 + 300\<rparr>)
         else if status_code resp = 500 then Some (Inr None, w1)
         else if status_code resp = 504 then Some (Inr None, w1)
         else (case raise_for_status resp of
                 Inl e \<Rightarrow> Some (Inl e, w1)
               | Inr u \<Rightarrow> Some (Inr (Some resp), w1)))"

subsection \<open>The pagination reader\<close>

text \<open>
  The loop of \<^verbatim>\<open>get_json\<close>, with its variables \<^verbatim>\<open>next_page\<close> and \<^verbatim>\<open>values\<close>.
  \<^verbatim>\<open>while next_page\<close> stops on \<^verbatim>\<open>None\<close> and on the empty string. \<^verbatim>\<open>get\<close> may
  return \<^verbatim>\<open>None\<close>, on which \<^verbatim>\<open>.json()\<close> raises \<^verbatim>\<open>AttributeError\<close>.
\<close>

partial_function (option) get_json_loop ::
  "client \<Rightarrow> params option \<Rightarrow> string option \<Rightarrow> item list \<Rightarrow> world \<Rightarrow> (item list) result" where
  "get_json_loop graph_client params next_page values w =
     (case next_page of
        None \<Rightarrow> Some (Inr values, w)
      | Some url \<Rightarrow>
          (if url = [] then Some (Inr values, w)
           else (case get graph_client url params w of
                   None \<Rightarrow> None
                 | Some (Inl e, w1) \<Rightarrow> Some (Inl e, w1)
                 | Some (Inr None, w1) \<Rightarrow> Some (Inl AttributeError, w1)
                 | Some (Inr (Some r), w1) \<Rightarrow>
                     (case json r of
                        None \<Rightarrow> Some (Inl ValueError, w1)
                      | Some resp \<Rightarrow>
                          (case value_field resp of
                             None \<Rightarrow> Some (Inl RuntimeError, w1)
                           | Some vs \<Rightarrow>
                               get_json_loop graph_client params (odata_nextLink resp)
                                 (values @ vs) w1)))))"

definition get_json :: "client \<Rightarrow> string \<Rightarrow> params option \<Rightarrow> world \<Rightarrow> (item list) result" where
  "get_json graph_client url params w = get_json_loop graph_client params (Some url) [] w"

subsection \<open>Library functions\<close>

text \<open>
  The functions of other packages that the crawler calls, and the cosmetic rewriting of a
  page's markup, are parameters of the model; every theorem holds whatever they compute.
  \<^item> \<open>sanitize_filename\<close>, \<open>sanitize_filepath\<close>: pathvalidate;
  \<^item> \<open>fnmatch\<close>: \<^verbatim>\<open>fnmatch.fnmatch(name, pattern)\<close>; \<open>lower\<close>: \<^verbatim>\<open>str.lower\<close>;
  \<^item> \<open>parse_attrs\<close>: the attribute dictionary that \<^verbatim>\<open>MyHTMLParser\<close> collects from a
    tag, in the order of the keys' first occurrence (\<open>None\<close> when the parser reports no
    start tag, so that \<^verbatim>\<open>parser.attrs\<close> raises \<^verbatim>\<open>AttributeError\<close>);
  \<^item> \<open>generate_html\<close>: the local function of that name, over ElementTree;
  \<^item> \<open>image_name\<close>: the substitution
    \<^verbatim>\<open>re.sub(r'.*\-(.+)?\!1-(.+?)\/\$value', r'\1', image_url)\<close>;
  \<^item> \<open>rewrite_content\<close>: lines 244 to 299 of \<^verbatim>\<open>download_page\<close>, a computation on the
    page title and the markup alone, which may raise (\<^verbatim>\<open>strptime\<close>, \<^verbatim>\<open>re.sub\<close>).
\<close>

record lib =
  sanitize_filename :: "string \<Rightarrow> string"
  sanitize_filepath :: "string \<Rightarrow> string"
  fnmatch :: "string \<Rightarrow> string \<Rightarrow> bool"
  lower :: "string \<Rightarrow> string"
  parse_attrs :: "string \<Rightarrow> (string \<times> string) list option"
  generate_html :: "string \<Rightarrow> (string \<times> string) list \<Rightarrow> string"
  image_name :: "string \<Rightarrow> string"
  rewrite_content :: "string \<Rightarrow> string \<Rightarrow> error + string"

subsection \<open>The selection filter\<close>

text \<open>\<^verbatim>\<open>item.get('displayName', item.get('title'))\<close>.\<close>

definition item_name :: "item \<Rightarrow> string option" where
  "item_name i = (case displayName i of Some n \<Rightarrow> Some n | None \<Rightarrow> title i)"

text \<open>
  The list comprehension of \<^verbatim>\<open>filter_items\<close>; \<^verbatim>\<open>.lower()\<close> on the \<^verbatim>\<open>None\<close> of an
  item with neither key raises \<^verbatim>\<open>AttributeError\<close>.
\<close>

fun matching :: "lib \<Rightarrow> string \<Rightarrow> item list \<Rightarrow> error + item list" where
  "matching L pat [] = Inr []"
| "matching L pat (i # rest) =
     (case item_name i of
        None \<Rightarrow> Inl AttributeError
      | Some n \<Rightarrow>
          (case matching L pat rest of
             Inl e \<Rightarrow> Inl e
           | Inr ms \<Rightarrow> Inr (if fnmatch L (lower L n) (lower L pat) then i # ms else ms)))"

definition filter_items :: "lib \<Rightarrow> item list \<Rightarrow> string list \<Rightarrow> error + (item list \<times> string list)" where
  "filter_items L items select =
     (case select of
        [] \<Rightarrow> Inr (items, select)
      | s # ss \<Rightarrow>
          (case matching L s items of
             Inl e \<Rightarrow> Inl e
           | Inr ms \<Rightarrow> Inr (ms, ss)))"

subsection \<open>The attachment resolver\<close>

text \<open>
  The text from the start of a string up to and including the first \<^verbatim>\<open>/>\<close>: the lazy
  \<^verbatim>\<open>.*?\/>\<close>. Without \<^verbatim>\<open>re.DOTALL\<close> the dot matches no newline.
\<close>

fun find_close :: "bool \<Rightarrow> string \<Rightarrow> string option" where
  "find_close dotall [] = None"
| "find_close dotall (c # cs) =
     (if c = CHR ''/'' \<and> take 1 cs = ''>'' then Some ''/>''
      else if \<not> dotall \<and> c = CHR 0x0A then None
      else map_option ((#) c) (find_close dotall cs))"

text \<open>
  A match of \<^verbatim>\<open>pre.*?\/>\<close> under \<^verbatim>\<open>re.DOTALL\<close> at the start of \<open>s\<close>, and a match of
  \<^verbatim>\<open>pre(.+?)\/>\<close> without it.
\<close>

definition match_star :: "string \<Rightarrow> string \<Rightarrow> string option" where
  "match_star pre s =
     (if take (length pre) s = pre
      then map_option ((@) pre) (find_close True (drop (length pre) s))
      else None)"

definition match_plus :: "string \<Rightarrow> string \<Rightarrow> string option" where
  "match_plus pre s =
     (if take (length pre) s = pre
      then (case drop (length pre) s of
              [] \<Rightarrow> None
            | c # cs \<Rightarrow>
                (if c = CHR 0x0A then None
                 else map_option (\<lambda>m. pre @ c # m) (find_close False cs)))
      else None)"

text \<open>
  \<^verbatim>\<open>re.sub\<close> scans the string from the left: where the pattern matches, the match is
  replaced and the scan goes on behind it; elsewhere the character is kept.
\<close>

datatype chunk = Lit char | Tag string

fun finditer :: "(string \<Rightarrow> string option) \<Rightarrow> string \<Rightarrow> chunk list" where
  "finditer m [] = []"
| "finditer m (c # cs) =
     (case m (c # cs) of
        None \<Rightarrow> Lit c # finditer m cs
      | Some t \<Rightarrow> Tag t # finditer m (drop (length t - 1) cs))"

fun sub_cb :: "(string \<Rightarrow> world \<Rightarrow> string result) \<Rightarrow> chunk list \<Rightarrow> world \<Rightarrow> string result" where
  "sub_cb repl [] w = Some (Inr [], w)"
| "sub_cb repl (Lit c # rest) w =
     bind_res (sub_cb repl rest w) (\<lambda>out w'. Some (Inr (c # out), w'))"
| "sub_cb repl (Tag t # rest) w =
     bind_res (repl t w) (\<lambda>r w1.
       bind_res (sub_cb repl rest w1) (\<lambda>out w2. Some (Inr (r @ out), w2)))"

text \<open>The template \<^verbatim>\<open><object \1></object>\<close> for a match of \<^verbatim>\<open><object (.+?)\/>\<close>.\<close>

definition expand_object :: "string \<Rightarrow> string" where
  "expand_object t = ''<object '' @ drop 8 (take (length t - 2) t) @ ''></object>''"

fun sub_template :: "(string \<Rightarrow> string) \<Rightarrow> chunk list \<Rightarrow> string" where
  "sub_template repl [] = []"
| "sub_template repl (Lit c # rest) = c # sub_template repl rest"
| "sub_template repl (Tag t # rest) = repl t @ sub_template repl rest"

text \<open>\<^verbatim>\<open>'data-fullres-src' not in k\<close> tests for a substring.\<close>

fun contains :: "string \<Rightarrow> string \<Rightarrow> bool" where
  "contains sub [] = (sub = [])"
| "contains sub (c # cs) = (take (length sub) (c # cs) = sub \<or> contains sub cs)"

definition download_image ::
  "lib \<Rightarrow> client \<Rightarrow> path \<Rightarrow> string \<Rightarrow> string \<Rightarrow> world \<Rightarrow> string result" where
  "download_image L graph_client attachment_dir dir_name tag_match w =
     (case parse_attrs L tag_match of
        None \<Rightarrow> Some (Inl AttributeError, w)
      | Some props \<Rightarrow>
     (case map_of props ''src'' of
        None \<Rightarrow> Some (Inl (KeyError ''src''), w)
      | Some src \<Rightarrow>
     (case map_of props ''data-src-type'' of
        None \<Rightarrow> Some (Inl (KeyError ''data-src-type''), w)
      | Some src_type \<Rightarrow>
     (let image_url = (case map_of props ''data-fullres-src'' of Some u \<Rightarrow> u | None \<Rightarrow> src);
          image_type = last (split_on CHR ''/''
            (case map_of props ''data-fullres-src-type'' of Some t \<Rightarrow> t | None \<Rightarrow> src_type));
          file_name = image_name L image_url @ ''.'' @ image_type;
          local_tag = generate_html L ''img''
            (filter (\<lambda>(k, v). \<not> contains ''data-fullres-src'' k)
               (AList.update ''src'' (dir_name @ ''/'' @ file_name) props))
      in if path_exists w (path_div attachment_dir file_name)
         then Some (Inr local_tag, w)
         else bind_res (get graph_client image_url None w) (\<lambda>req w1.
           (case req of
              None \<Rightarrow> Some (Inr tag_match, w1)
            | Some r \<Rightarrow>
                (case mkdir_exist_ok (fs w1) attachment_dir of
                   Inl e \<Rightarrow> Some (Inl e, w1)
                 | Inr f1 \<Rightarrow>
                     (case open_write f1 (path_div attachment_dir file_name) (content r) of
                        Inl e \<Rightarrow> Some (Inl e, w1\<lparr>fs := f1\<rparr>)
                      | Inr f2 \<Rightarrow> Some (Inr local_tag, w1\<lparr>fs := f2\<rparr>)))))))))"

definition download_attachment ::
  "lib \<Rightarrow> client \<Rightarrow> path \<Rightarrow> string \<Rightarrow> string \<Rightarrow> world \<Rightarrow> string result" where
  "download_attachment L graph_client attachment_dir dir_name tag_match w =
     (case parse_attrs L tag_match of
        None \<Rightarrow> Some (Inl AttributeError, w)
      | Some props \<Rightarrow>
     (case map_of props ''data'' of
        None \<Rightarrow> Some (Inl (KeyError ''data''), w)
      | Some data_url \<Rightarrow>
     (case map_of props ''data-attachment'' of
        None \<Rightarrow> Some (Inl (KeyError ''data-attachment''), w)
      | Some file_name \<Rightarrow>
     (let local_tag = generate_html L ''object''
            (AList.update ''data'' (dir_name @ ''/'' @ file_name) props)
      in if path_exists w (path_div attachment_dir file_name)
         then Some (Inr local_tag, w)
         else bind_res (get graph_client data_url None w) (\<lambda>req w1.
           (case req of
              None \<Rightarrow> Some (Inr tag_match, w1)
            | Some r \<Rightarrow>
                (case mkdir_exist_ok (fs w1) attachment_dir of
                   Inl e \<Rightarrow> Some (Inl e, w1)
                 | Inr f1 \<Rightarrow>
                     (case open_write f1 (path_div attachment_dir file_name) (content r) of
                        Inl e \<Rightarrow> Some (Inl e, w1\<lparr>fs := f1\<rparr>)
                      | Inr f2 \<Rightarrow> Some (Inr local_tag, w1\<lparr>fs := f2\<rparr>)))))))))"

definition download_attachments ::
  "lib \<Rightarrow> client \<Rightarrow> string \<Rightarrow> path \<Rightarrow> string \<Rightarrow> world \<Rightarrow> string result" where
  "download_attachments L graph_client content0 out_dir page_title w =
     (let dir_name = page_title @ ''.FILES'';
          attachment_dir = path_div out_dir dir_name
      in bind_res
           (sub_cb (download_image L graph_client attachment_dir dir_name)
              (finditer (match_star ''<img '') content0) w) (\<lambda>content1 w1.
         bind_res
           (sub_cb (download_attachment L graph_client attachment_dir dir_name)
              (finditer (match_star ''<object '') content1) w1) (\<lambda>content2 w2.
         Some (Inr (sub_template expand_object
                      (finditer (match_plus ''<object '') content2)), w2))))"

subsection \<open>The page materializer\<close>

definition download_page ::
  "lib \<Rightarrow> client \<Rightarrow> string \<Rightarrow> path \<Rightarrow> string \<Rightarrow> world \<Rightarrow> unit result" where
  "download_page L graph_client page_url path page_title w =
     (let out_html = path_div path (page_title @ ''.html'')
      in if path_exists w out_html then Some (Inr (), w)
         else (case mkdir_parents (fs w) path of
                 Inl e \<Rightarrow> Some (Inl e, w)
               | Inr f1 \<Rightarrow>
                   bind_res (get graph_client page_url None (w\<lparr>fs := f1\<rparr>)) (\<lambda>response w2.
                     (case response of
                        None \<Rightarrow> Some (Inr (), w2)
                      | Some r \<Rightarrow>
                          (case rewrite_content L page_title (content r) of
                             Inl e \<Rightarrow> Some (Inl e, w2)
                           | Inr content1 \<Rightarrow>
                               bind_res
                                 (download_attachments L graph_client content1 path page_title w2)
                                 (\<lambda>content2 w3.
                                    (case open_write (fs w3) out_html content2 of
                                       Inl e \<Rightarrow> Some (Inl e, w3)
                                     | Inr f2 \<Rightarrow> Some (Inr (), w3\<lparr>fs := f2\<rparr>))))))))"


subsection \<open>The walker\<close>

text \<open>
  \<^verbatim>\<open>sorted([(page['order'], page) for page in pages])\<close> compares tuples: two tuples
  with different first components are ordered by them; with equal first components the
  page dictionaries decide, which are compared for equality first, and different
  dictionaries cannot be ordered (\<^verbatim>\<open>TypeError\<close>). The sort is written as an insertion
  sort over this comparison; it is stable, as Python's is.
\<close>

fun order_pairs :: "item list \<Rightarrow> error + (int \<times> item) list" where
  "order_pairs [] = Inr []"
| "order_pairs (page # rest) =
     (case order page of
        None \<Rightarrow> Inl (KeyError ''order'')
      | Some k \<Rightarrow>
          (case order_pairs rest of
             Inl e \<Rightarrow> Inl e
           | Inr ps \<Rightarrow> Inr ((k, page) # ps)))"

definition tuple_lt :: "int \<times> item \<Rightarrow> int \<times> item \<Rightarrow> error + bool" where
  "tuple_lt a b =
     (if fst a \<noteq> fst b then Inr (fst a < fst b)
      else if snd a = snd b then Inr False
      else Inl TypeError)"

fun insort_py :: "int \<times> item \<Rightarrow> (int \<times> item) list \<Rightarrow> error + (int \<times> item) list" where
  "insort_py x [] = Inr [x]"
| "insort_py x (y # ys) =
     (case tuple_lt x y of
        Inl e \<Rightarrow> Inl e
      | Inr True \<Rightarrow> Inr (x # y # ys)
      | Inr False \<Rightarrow>
          (case insort_py x ys of
             Inl e \<Rightarrow> Inl e
           | Inr zs \<Rightarrow> Inr (y # zs)))"

fun sorted_py :: "(int \<times> item) list \<Rightarrow> error + (int \<times> item) list" where
  "sorted_py [] = Inr []"
| "sorted_py (x # xs) =
     (case sorted_py xs of
        Inl e \<Rightarrow> Inl e
      | Inr ys \<Rightarrow> insort_py x ys)"

text \<open>
  The loop of \<^verbatim>\<open>download_pages\<close>. \<open>level_dirs\<close> holds the slots 0, 1 and 2 of the list
  of that name; \<open>page_dir\<close> is the variable of that name, unbound (\<open>None\<close>) until a page
  of level 0, 1 or 2 has been seen, and left as it is by a page of any other level.
\<close>

fun pages_loop ::
  "lib \<Rightarrow> client \<Rightarrow> (int \<times> item) list \<Rightarrow> path \<times> string \<times> string \<Rightarrow> path option \<Rightarrow> world
     \<Rightarrow> unit result" where
  "pages_loop L graph_client [] level_dirs page_dir w = Some (Inr (), w)"
| "pages_loop L graph_client ((k, page) # rest) (ld0, ld1, ld2) page_dir w =
     (case level page of
        None \<Rightarrow> Some (Inl (KeyError ''level''), w)
      | Some lv \<Rightarrow>
     (case title page of
        None \<Rightarrow> Some (Inl (KeyError ''title''), w)
      | Some t \<Rightarrow>
     (let page_title = sanitize_filepath L (sanitize_filename L t);
          page_dir0 = (if lv = 0 then Some ld0 else page_dir);
          ld1' = (if lv = 0 then page_title @ ''.NOTES'' else ld1);
          page_dir1 = (if lv = 1 then Some (path_div ld0 ld1') else page_dir0);
          ld2' = (if lv = 1 then page_title @ ''.NOTES'' else ld2);
          page_dir2 = (if lv = 2 then Some (path_div (path_div ld0 ld1') ld2') else page_dir1)
      in (case contentUrl page of
            None \<Rightarrow> Some (Inl (KeyError ''contentUrl''), w)
          | Some page_url \<Rightarrow>
         (case page_dir2 of
            None \<Rightarrow> Some (Inl UnboundLocalError, w)
          | Some d \<Rightarrow>
              bind_res (download_page L graph_client page_url d page_title w)
                (\<lambda>u. pages_loop L graph_client rest (ld0, ld1', ld2') page_dir2))))))"

definition download_pages ::
  "lib \<Rightarrow> client \<Rightarrow> item list \<Rightarrow> path \<Rightarrow> string list \<Rightarrow> world \<Rightarrow> unit result" where
  "download_pages L graph_client pages path select w =
     (case filter_items L pages select of
        Inl e \<Rightarrow> Some (Inl e, w)
      | Inr (pages1, select1) \<Rightarrow>
          (case order_pairs pages1 of
             Inl e \<Rightarrow> Some (Inl e, w)
           | Inr pairs \<Rightarrow>
               (case sorted_py pairs of
                  Inl e \<Rightarrow> Some (Inl e, w)
                | Inr pages2 \<Rightarrow> pages_loop L graph_client pages2 (path, [], []) None w)))"

fun sections_loop ::
  "lib \<Rightarrow> client \<Rightarrow> item list \<Rightarrow> path \<Rightarrow> string list \<Rightarrow> world \<Rightarrow> unit result" where
  "sections_loop L graph_client [] path select w = Some (Inr (), w)"
| "sections_loop L graph_client (sec # rest) path select w =
     (case displayName sec of
        None \<Rightarrow> Some (Inl (KeyError ''displayName''), w)
      | Some sec_name \<Rightarrow>
     (case pagesUrl sec of
        None \<Rightarrow> Some (Inl (KeyError ''pagesUrl''), w)
      | Some pages_url \<Rightarrow>
          bind_res (get_json graph_client (pages_url @ ''?pagelevel=true'') None w) (\<lambda>pages w1.
          bind_res (download_pages L graph_client pages
                      (path_div path (sec_name @ ''.NOTES'')) select w1) (\<lambda>u.
          sections_loop L graph_client rest path select))))"

definition download_sections ::
  "lib \<Rightarrow> client \<Rightarrow> item list \<Rightarrow> path \<Rightarrow> string list \<Rightarrow> world \<Rightarrow> unit result" where
  "download_sections L graph_client sections path select w =
     (case filter_items L sections select of
        Inl e \<Rightarrow> Some (Inl e, w)
      | Inr (sections1, select1) \<Rightarrow> sections_loop L graph_client sections1 path select1 w)"

fun section_groups_loop ::
  "lib \<Rightarrow> client \<Rightarrow> item list \<Rightarrow> path \<Rightarrow> string list \<Rightarrow> world \<Rightarrow> unit result" where
  "section_groups_loop L graph_client [] path select w = Some (Inr (), w)"
| "section_groups_loop L graph_client (sg # rest) path select w =
     (case displayName sg of
        None \<Rightarrow> Some (Inl (KeyError ''displayName''), w)
      | Some sg_name \<Rightarrow>
     (case sectionsUrl sg of
        None \<Rightarrow> Some (Inl (KeyError ''sectionsUrl''), w)
      | Some sections_url \<Rightarrow>
          bind_res (get_json graph_client sections_url None w) (\<lambda>sections w1.
          bind_res (download_sections L graph_client sections
                      (path_div path (sg_name @ ''.SECTIONS'')) select w1) (\<lambda>u.
          section_groups_loop L graph_client rest path select))))"

definition download_section_groups ::
  "lib \<Rightarrow> client \<Rightarrow> item list \<Rightarrow> path \<Rightarrow> string list \<Rightarrow> world \<Rightarrow> unit result" where
  "download_section_groups L graph_client section_groups path select w =
     (case filter_items L section_groups select of
        Inl e \<Rightarrow> Some (Inl e, w)
      | Inr (section_groups1, select1) \<Rightarrow>
          section_groups_loop L graph_client section_groups1 path select1 w)"

fun notebooks_loop ::
  "lib \<Rightarrow> client \<Rightarrow> item list \<Rightarrow> path \<Rightarrow> string list \<Rightarrow> world \<Rightarrow> unit result" where
  "notebooks_loop L graph_client [] path select w = Some (Inr (), w)"
| "notebooks_loop L graph_client (nb # rest) path select w =
     (case displayName nb of
        None \<Rightarrow> Some (Inl (KeyError ''displayName''), w)
      | Some nb_name \<Rightarrow>
     (case sectionsUrl nb of
        None \<Rightarrow> Some (Inl (KeyError ''sectionsUrl''), w)
      | Some sections_url \<Rightarrow>
          bind_res (get_json graph_client sections_url None w) (\<lambda>sections w1.
     (case sectionGroupsUrl nb of
        None \<Rightarrow> Some (Inl (KeyError ''sectionGroupsUrl''), w1)
      | Some section_groups_url \<Rightarrow>
          bind_res (get_json graph_client section_groups_url None w1) (\<lambda>section_groups w2.
          bind_res (download_sections L graph_client sections
                      (path_div path (nb_name @ ''.SECTIONS'')) select w2) (\<lambda>u w3.
          bind_res (download_section_groups L graph_client section_groups
                      (path_div path (nb_name @ ''.SECTIONS'')) select w3) (\<lambda>u.
          notebooks_loop L graph_client rest path select)))))))"

definition graph_url :: string where
  "graph_url = ''https://graph.microsoft.com/v1.0''"

definition download_notebooks ::
  "lib \<Rightarrow> client \<Rightarrow> path \<Rightarrow> string list \<Rightarrow> world \<Rightarrow> unit result" where
  "download_notebooks L graph_client path select w =
     bind_res (get_json graph_client (graph_url @ ''/me/onenote/notebooks'') None w)
       (\<lambda>notebooks w1.
          (case filter_items L notebooks select of
             Inl e \<Rightarrow> Some (Inl e, w1)
           | Inr (notebooks1, select1) \<Rightarrow>
               notebooks_loop L graph_client notebooks1 path select1 w1))"


subsection \<open>Concrete worlds, remotes and library functions for the examples\<close>

definition world0 :: world where
  "world0 = \<lparr>requests = [], slept = 0, fs = Map.empty\<rparr>"

definition status_only :: "int \<Rightarrow> response" where
  "status_only c = \<lparr>status_code = c, json = None, content = []\<rparr>"



text \<open>
  What the pagination reader expects of the remote: \<open>follows gc params h next_page chain final\<close>
  says that, from the history \<open>h\<close> on, the remote answers the URL \<open>next_page\<close> and then
  each continuation link in turn with the batches of \<open>chain\<close>, each answer a success
  with a body holding that batch, and that the last answer's continuation link is
  \<open>final\<close>.
\<close>

fun follows ::
  "client \<Rightarrow> params option \<Rightarrow> request list \<Rightarrow> string option \<Rightarrow> (string \<times> item list) list
     \<Rightarrow> string option \<Rightarrow> bool" where
  "follows gc params h next_page [] final = (next_page = final)"
| "follows gc params h next_page ((url, batch) # rest) final =
     (next_page = Some url \<and> url \<noteq> [] \<and>
      \<not> (400 \<le> status_code (gc h (url, params)) \<and> status_code (gc h (url, params)) < 600) \<and>
      (case json (gc h (url, params)) of
         None \<Rightarrow> False
       | Some body \<Rightarrow>
           value_field body = Some batch \<and>
           follows gc params (h @ [(url, params)]) (odata_nextLink body) rest final))"

text \<open>Remotes with three list pages, and with a second page that lacks the items.\<close>

definition named :: "string \<Rightarrow> item" where
  "named n = \<lparr>displayName = Some n, title = None, sectionsUrl = None, sectionGroupsUrl = None,
     pagesUrl = None, contentUrl = None, order = None, level = None\<rparr>"

definition list_response :: "item list option \<Rightarrow> string option \<Rightarrow> response" where
  "list_response items link =
     \<lparr>status_code = 200, json = Some \<lparr>value_field = items, odata_nextLink = link\<rparr>, content = []\<rparr>"

definition three_batches :: client where
  "three_batches h rq =
     (if fst rq = ''list'' then list_response (Some (replicate 10 (named ''a''))) (Some ''list?skip=10'')
      else if fst rq = ''list?skip=10''
        then list_response (Some (replicate 10 (named ''b''))) (Some ''list?skip=20'')
      else if fst rq = ''list?skip=20'' then list_response (Some (replicate 10 (named ''c''))) None
      else status_only 404)"

definition no_value_second :: client where
  "no_value_second h rq =
     (if fst rq = ''list'' then list_response (Some [named ''a'']) (Some ''more'')
      else list_response None None)"

text \<open>
  Stand-ins for the library functions: a sanitizer that drops slashes, a matcher for
  patterns with \<open>*\<close> and \<open>?\<close>, lower case for ASCII letters, the attributes of the two
  tags the examples use, and a serializer of a tag with its attributes.
\<close>

definition strip_slashes :: "string \<Rightarrow> string" where
  "strip_slashes s = filter (\<lambda>c. c \<noteq> CHR ''/'') s"

fun glob :: "string \<Rightarrow> string \<Rightarrow> bool" where
  "glob [] [] = True"
| "glob (c # cs) [] = False"
| "glob [] (p # ps) = (p = CHR ''*'' \<and> glob [] ps)"
| "glob (c # cs) (p # ps) =
     (if p = CHR ''*'' then glob (c # cs) ps \<or> glob cs (p # ps)
      else (p = CHR ''?'' \<or> p = c) \<and> glob cs ps)"

definition ascii_lower :: "string \<Rightarrow> string" where
  "ascii_lower s =
     map (\<lambda>c. case map_of (zip ''ABCDEFGHIJKLMNOPQRSTUVWXYZ'' ''abcdefghijklmnopqrstuvwxyz'') c of
                 Some l \<Rightarrow> l
               | None \<Rightarrow> c) s"

definition img_tag :: string where
  \<open>img_tag = ''<img src="https://r/a" data-src-type="image/png" />''\<close>

definition object_tag :: string where
  \<open>object_tag = ''<object data-attachment="a.pdf" data="https://r/b" />''\<close>

definition attrs0 :: "string \<Rightarrow> (string \<times> string) list option" where
  "attrs0 t =
     (if t = img_tag then Some [(''src'', ''https://r/a''), (''data-src-type'', ''image/png'')]
      else if t = object_tag
        then Some [(''data-attachment'', ''a.pdf''), (''data'', ''https://r/b'')]
      else None)"

definition html0 :: "string \<Rightarrow> (string \<times> string) list \<Rightarrow> string" where
  \<open>html0 tag props =
     ''<'' @ tag @ concat (map (\<lambda>(k, v). '' '' @ k @ ''="'' @ v @ ''"'') props) @ '' />''\<close>

definition lib0 :: lib where
  "lib0 = \<lparr>sanitize_filename = strip_slashes, sanitize_filepath = (\<lambda>s. s), fnmatch = glob,
     lower = ascii_lower, parse_attrs = attrs0, generate_html = html0,
     image_name = (\<lambda>u. last (split_on CHR ''/'' u)),
     rewrite_content = (\<lambda>t c. Inr c)\<rparr>"

text \<open>A remote with the notebooks \<open>Work\<close> and \<open>Personal\<close>, both empty.\<close>

definition notebook :: "string \<Rightarrow> string \<Rightarrow> string \<Rightarrow> item" where
  "notebook n su gu = (named n)\<lparr>sectionsUrl := Some su, sectionGroupsUrl := Some gu\<rparr>"

definition two_notebooks :: client where
  "two_notebooks h rq =
     (if fst rq = graph_url @ ''/me/onenote/notebooks''
      then list_response
             (Some [notebook ''Work'' ''work/sections'' ''work/groups'',
                    notebook ''Personal'' ''personal/sections'' ''personal/groups'']) None
      else list_response (Some []) None)"

text \<open>The test of the comprehension in \<^verbatim>\<open>filter_items\<close>, for an item that has a name.\<close>

definition matches :: "lib \<Rightarrow> string \<Rightarrow> item \<Rightarrow> bool" where
  "matches L pat i = fnmatch L (lower L (the (item_name i))) (lower L pat)"

text \<open>
  The walker's treatment of the pages of a section as the specification words it: the
  pages in ascending order; a page of level 0 goes to the base directory and its title
  with \<open>.NOTES\<close> becomes the level-1 anchor; a page of level 1 goes to base/anchor1 and
  sets the level-2 anchor; a page of level 2 goes to base/anchor1/anchor2. The title is
  the title as sanitized for a file name. Each page is then materialized in its
  directory, in that order.
\<close>

definition file_title :: "lib \<Rightarrow> item \<Rightarrow> string" where
  "file_title L page = sanitize_filepath L (sanitize_filename L (the (title page)))"

fun place_pages ::
  "lib \<Rightarrow> path \<Rightarrow> string \<Rightarrow> string \<Rightarrow> item list \<Rightarrow> (string \<times> path \<times> string) list" where
  "place_pages L base anchor1 anchor2 [] = []"
| "place_pages L base anchor1 anchor2 (page # rest) =
     (if level page = Some 0
      then (the (contentUrl page), base, file_title L page)
           # place_pages L base (file_title L page @ ''.NOTES'') anchor2 rest
      else if level page = Some 1
      then (the (contentUrl page), path_div base anchor1, file_title L page)
           # place_pages L base anchor1 (file_title L page @ ''.NOTES'') rest
      else (the (contentUrl page), path_div (path_div base anchor1) anchor2, file_title L page)
           # place_pages L base anchor1 anchor2 rest)"

fun materialize_all ::
  "lib \<Rightarrow> client \<Rightarrow> (string \<times> path \<times> string) list \<Rightarrow> world \<Rightarrow> unit result" where
  "materialize_all L gc [] w = Some (Inr (), w)"
| "materialize_all L gc ((url, dir, t) # rest) w =
     bind_res (download_page L gc url dir t w) (\<lambda>u. materialize_all L gc rest)"

definition walk_pages_spec :: "lib \<Rightarrow> client \<Rightarrow> item list \<Rightarrow> path \<Rightarrow> world \<Rightarrow> unit result" where
  "walk_pages_spec L gc pages base w =
     materialize_all L gc
       (place_pages L base [] [] (sort_key (\<lambda>page. the (order page)) pages)) w"

text \<open>Pages, and a remote that serves every page with the body \<open>x\<close>.\<close>

definition page :: "string \<Rightarrow> int \<Rightarrow> int \<Rightarrow> string \<Rightarrow> item" where
  "page t k lv url =
     \<lparr>displayName = None, title = Some t, sectionsUrl = None, sectionGroupsUrl = None,
      pagesUrl = None, contentUrl = Some url, order = Some k, level = Some lv\<rparr>"

definition serves_pages :: client where
  "serves_pages h rq = \<lparr>status_code = 200, json = None, content = ''x''\<rparr>"

text \<open>
  The local file name of an image and the rewritten tags, as \<^verbatim>\<open>download_image\<close> and
  \<^verbatim>\<open>download_attachment\<close> compute them from the attributes of a tag that has the keys
  they read.
\<close>

definition image_source :: "(string \<times> string) list \<Rightarrow> string" where
  "image_source props =
     (case map_of props ''data-fullres-src'' of
        Some u \<Rightarrow> u
      | None \<Rightarrow> the (map_of props ''src''))"

definition image_file :: "lib \<Rightarrow> (string \<times> string) list \<Rightarrow> string" where
  "image_file L props =
     image_name L (image_source props) @ ''.'' @
     last (split_on CHR ''/''
       (case map_of props ''data-fullres-src-type'' of
          Some t \<Rightarrow> t
        | None \<Rightarrow> the (map_of props ''data-src-type'')))"

definition local_image_tag :: "lib \<Rightarrow> string \<Rightarrow> (string \<times> string) list \<Rightarrow> string" where
  "local_image_tag L dir_name props =
     generate_html L ''img''
       (filter (\<lambda>(k, v). \<not> contains ''data-fullres-src'' k)
          (AList.update ''src'' (dir_name @ ''/'' @ image_file L props) props))"

definition local_object_tag :: "lib \<Rightarrow> string \<Rightarrow> (string \<times> string) list \<Rightarrow> string" where
  "local_object_tag L dir_name props =
     generate_html L ''object''
       (AList.update ''data''
          (dir_name @ ''/'' @ the (map_of props ''data-attachment'')) props)"

text \<open>A remote on which every resource times out, and a world with the output directory.\<close>

definition unavailable :: client where
  "unavailable h rq = status_only 504"

definition world_out :: world where
  "world_out = \<lparr>requests = [], slept = 0, fs = [[''out''] \<mapsto> Dir]\<rparr>"

text \<open>A remote with one section, whose only page is \<open>P\<close>.\<close>

definition one_section :: client where
  "one_section h rq =
     (if fst rq = ''pu?pagelevel=true''
      then list_response (Some [page ''P'' 1 0 ''u1'']) None
      else \<lparr>status_code = 200, json = None, content = ''x''\<rparr>)"

text \<open>
  One file system extends another when every path of the first is a path of the second,
  of the same kind (a file, whatever its contents, or a directory).
\<close>

definition ext :: "filesystem \<Rightarrow> filesystem \<Rightarrow> bool" where
  "ext f g = (\<forall>p n. f p = Some n \<longrightarrow> (\<exists>n'. g p = Some n' \<and> (n' = Dir) = (n = Dir)))"

text \<open>An unchanged remote: the answer to a request does not depend on the requests before it.\<close>

definition static :: "client \<Rightarrow> bool" where
  "static gc = (\<forall>h h' rq. gc h rq = gc h' rq)"

definition never_unavailable :: "client \<Rightarrow> bool" where
  "never_unavailable gc = (\<forall>h rq. status_code (gc h rq) \<noteq> 500 \<and> status_code (gc h rq) \<noteq> 504)"

text \<open>
  The walker with the pages of a section left alone: what a run does that only reads the
  lists of notebooks, section groups, sections and pages.
\<close>

fun list_sections_loop ::
  "lib \<Rightarrow> client \<Rightarrow> item list \<Rightarrow> world \<Rightarrow> unit result" where
  "list_sections_loop L graph_client [] w = Some (Inr (), w)"
| "list_sections_loop L graph_client (sec # rest) w =
     (case pagesUrl sec of
        None \<Rightarrow> Some (Inl (KeyError ''pagesUrl''), w)
      | Some pages_url \<Rightarrow>
          bind_res (get_json graph_client (pages_url @ ''?pagelevel=true'') None w) (\<lambda>pages.
          list_sections_loop L graph_client rest))"

definition list_sections ::
  "lib \<Rightarrow> client \<Rightarrow> item list \<Rightarrow> string list \<Rightarrow> world \<Rightarrow> unit result" where
  "list_sections L graph_client sections select w =
     (case filter_items L sections select of
        Inl e \<Rightarrow> Some (Inl e, w)
      | Inr (sections1, select1) \<Rightarrow> list_sections_loop L graph_client sections1 w)"

fun list_section_groups_loop ::
  "lib \<Rightarrow> client \<Rightarrow> item list \<Rightarrow> string list \<Rightarrow> world \<Rightarrow> unit result" where
  "list_section_groups_loop L graph_client [] select w = Some (Inr (), w)"
| "list_section_groups_loop L graph_client (sg # rest) select w =
     (case sectionsUrl sg of
        None \<Rightarrow> Some (Inl (KeyError ''sectionsUrl''), w)
      | Some sections_url \<Rightarrow>
          bind_res (get_json graph_client sections_url None w) (\<lambda>sections w1.
          bind_res (list_sections L graph_client sections select w1) (\<lambda>u.
          list_section_groups_loop L graph_client rest select)))"

definition list_section_groups ::
  "lib \<Rightarrow> client \<Rightarrow> item list \<Rightarrow> string list \<Rightarrow> world \<Rightarrow> unit result" where
  "list_section_groups L graph_client section_groups select w =
     (case filter_items L section_groups select of
        Inl e \<Rightarrow> Some (Inl e, w)
      | Inr (section_groups1, select1) \<Rightarrow>
          list_section_groups_loop L graph_client section_groups1 select1 w)"

fun list_notebooks_loop ::
  "lib \<Rightarrow> client \<Rightarrow> item list \<Rightarrow> string list \<Rightarrow> world \<Rightarrow> unit result" where
  "list_notebooks_loop L graph_client [] select w = Some (Inr (), w)"
| "list_notebooks_loop L graph_client (nb # rest) select w =
     (case sectionsUrl nb of
        None \<Rightarrow> Some (Inl (KeyError ''sectionsUrl''), w)
      | Some sections_url \<Rightarrow>
          bind_res (get_json graph_client sections_url None w) (\<lambda>sections w1.
     (case sectionGroupsUrl nb of
        None \<Rightarrow> Some (Inl (KeyError ''sectionGroupsUrl''), w1)
      | Some section_groups_url \<Rightarrow>
          bind_res (get_json graph_client section_groups_url None w1) (\<lambda>section_groups w2.
          bind_res (list_sections L graph_client sections select w2) (\<lambda>u w3.
          bind_res (list_section_groups L graph_client section_groups select w3) (\<lambda>u.
          list_notebooks_loop L graph_client rest select))))))"

definition list_notebooks :: "lib \<Rightarrow> client \<Rightarrow> string list \<Rightarrow> world \<Rightarrow> unit result" where
  "list_notebooks L graph_client select w =
     bind_res (get_json graph_client (graph_url @ ''/me/onenote/notebooks'') None w)
       (\<lambda>notebooks w1.
          (case filter_items L notebooks select of
             Inl e \<Rightarrow> Some (Inl e, w1)
           | Inr (notebooks1, select1) \<Rightarrow>
               list_notebooks_loop L graph_client notebooks1 select1 w1))"

text \<open>
  The text of a scanned string, the tags that a scan finds, and what it means that a
  reference of a page has not been downloaded yet: the tag has the attributes its
  handler reads and its local file does not exist.
\<close>

fun chunk_text :: "chunk \<Rightarrow> string" where
  "chunk_text (Lit c) = [c]"
| "chunk_text (Tag t) = t"

fun tags_of :: "chunk list \<Rightarrow> string list" where
  "tags_of [] = []"
| "tags_of (Lit c # rest) = tags_of rest"
| "tags_of (Tag t # rest) = t # tags_of rest"

definition image_pending :: "lib \<Rightarrow> world \<Rightarrow> path \<Rightarrow> string \<Rightarrow> bool" where
  "image_pending L w attachment_dir t =
     (case parse_attrs L t of
        None \<Rightarrow> False
      | Some props \<Rightarrow>
          map_of props ''src'' \<noteq> None \<and> map_of props ''data-src-type'' \<noteq> None \<and>
          \<not> path_exists w (path_div attachment_dir (image_file L props)))"

definition object_pending :: "lib \<Rightarrow> world \<Rightarrow> path \<Rightarrow> string \<Rightarrow> bool" where
  "object_pending L w attachment_dir t =
     (case parse_attrs L t of
        None \<Rightarrow> False
      | Some props \<Rightarrow>
          map_of props ''data'' \<noteq> None \<and> map_of props ''data-attachment'' \<noteq> None \<and>
          \<not> path_exists w (path_div attachment_dir (the (map_of props ''data-attachment''))))"

definition always_unavailable :: "client \<Rightarrow> bool" where
  "always_unavailable gc =
     (\<forall>h rq. status_code (gc h rq) = 500 \<or> status_code (gc h rq) = 504)"

text \<open>
  The statuses on which \<open>get\<close> raises, and the status of the answer to the \<open>i\<close>-th request
  of a log of requests.
\<close>

definition fatal :: "int \<Rightarrow> bool" where
  "fatal s = (400 \<le> s \<and> s < 600 \<and> s \<noteq> 429 \<and> s \<noteq> 500 \<and> s \<noteq> 504)"

definition answer :: "client \<Rightarrow> request list \<Rightarrow> nat \<Rightarrow> int" where
  "answer gc h i = status_code (gc (take i h) (h ! i))"


definition clean :: "client \<Rightarrow> request list \<Rightarrow> request list \<Rightarrow> bool" where
  "clean gc h h' =
     ((\<exists>t. h' = h @ t) \<and> (\<forall>i. length h \<le> i \<and> i < length h' \<longrightarrow> \<not> fatal (answer gc h' i)))"

definition log_ok :: "client \<Rightarrow> error option \<Rightarrow> request list \<Rightarrow> request list \<Rightarrow> bool" where
  "log_ok gc e h h' =
     (clean gc h h' \<or>
      (\<exists>h1 rq. h' = h1 @ [rq] \<and> clean gc h h1 \<and> fatal (status_code (gc h1 rq)) \<and>
               e = Some (HTTPError (status_code (gc h1 rq)))))"

definition step_ok :: "client \<Rightarrow> error option \<Rightarrow> world \<Rightarrow> world \<Rightarrow> bool" where
  "step_ok gc e w w' = (ext (fs w) (fs w') \<and> log_ok gc e (requests w) (requests w'))"


section \<open>Properties\<close>

subsection \<open>The fetch client\<close>

lemma bind_res_simps:
  "bind_res None k = None"
  "bind_res (Some (Inl e, w)) k = Some (Inl e, w)"
  "bind_res (Some (Inr x, w)) k = k x w"
  by (simp_all add: bind_res_def)


lemma get_step_429:
  "status_code (gc (requests w) (url, params)) = 429 \<Longrightarrow>
   get gc url params w =
   get gc url params (w\<lparr>requests := requests w @ [(url, params)], slept := slept w + 300\<rparr>)"
  by (subst get.simps) (simp add: Let_def)

lemma get_step_other:
  "status_code (gc (requests w) (url, params)) \<noteq> 429 \<Longrightarrow>
   get gc url params w =
   Some (let resp = gc (requests w) (url, params)
         in if status_code resp = 500 \<or> status_code resp = 504 then Inr None
            else if 400 \<le> status_code resp \<and> status_code resp < 600
                 then Inl (HTTPError (status_code resp))
            else Inr (Some resp),
         w\<lparr>requests := requests w @ [(url, params)]\<rparr>)"
  by (subst get.simps) (auto simp add: Let_def raise_for_status_def)

lemma get_retries:
  "(\<forall>k<n. status_code (gc (requests w @ replicate k (url, params)) (url, params)) = 429) \<Longrightarrow>
   get gc url params w =
   get gc url params
     (w\<lparr>requests := requests w @ replicate n (url, params), slept := slept w + 300 * n\<rparr>)"
proof (induction n arbitrary: w)
  case 0
  then show ?case by simp
next
  case (Suc n)
  have h0: "status_code (gc (requests w) (url, params)) = 429"
    using Suc.prems by (metis append_Nil2 replicate_0 zero_less_Suc)
  let ?w1 = "w\<lparr>requests := requests w @ [(url, params)], slept := slept w + 300\<rparr>"
  have "\<forall>k<n. status_code (gc (requests ?w1 @ replicate k (url, params)) (url, params)) = 429"
  proof (intro allI impI)
    fix k assume "k < n"
    then have "status_code (gc (requests w @ replicate (Suc k) (url, params)) (url, params)) = 429"
      using Suc.prems by auto
    then show "status_code (gc (requests ?w1 @ replicate k (url, params)) (url, params)) = 429"
      by (simp add: replicate_app_Cons_same)
  qed
  from Suc.IH[OF this] show ?case
    by (simp add: get_step_429[of gc w url params, OF h0] replicate_app_Cons_same add.assoc)
qed

text \<open>A call of \<open>get\<close> that returns has seen a status other than 429.\<close>

lemma get_Some_not429:
  assumes "get gc url params w = Some y"
  shows "\<exists>k. status_code (gc (requests w @ replicate k (url, params)) (url, params)) \<noteq> 429"
proof (rule get.raw_induct[where P = "\<lambda>gc url params w y.
         \<exists>k. status_code (gc (requests w @ replicate k (url, params)) (url, params)) \<noteq> 429",
       OF _ assms])
  fix get' :: "client \<Rightarrow> string \<Rightarrow> params option \<Rightarrow> world \<Rightarrow> (response option) result"
    and gc :: client and url and params :: "params option" and w :: world
    and y :: "(error + response option) \<times> world"
  assume IH: "\<And>gc url params w y. get' gc url params w = Some y \<Longrightarrow>
     \<exists>k. status_code (gc (requests w @ replicate k (url, params)) (url, params)) \<noteq> 429"
  assume step: "(let resp = gc (requests w) (url, params);
          w1 = w\<lparr>requests := requests w @ [(url, params)]\<rparr>
      in if status_code resp = 429
         then get' gc url params (w1\<lparr>slept := slept w1 + 300\<rparr>)
         else if status_code resp = 500 then Some (Inr None, w1)
         else if status_code resp = 504 then Some (Inr None, w1)
         else (case raise_for_status resp of
                 Inl e \<Rightarrow> Some (Inl e, w1)
               | Inr u \<Rightarrow> Some (Inr (Some resp), w1))) = Some y"
  show "\<exists>k. status_code (gc (requests w @ replicate k (url, params)) (url, params)) \<noteq> 429"
  proof (cases "status_code (gc (requests w) (url, params)) = 429")
    case True
    with step have "get' gc url params
        (w\<lparr>requests := requests w @ [(url, params)], slept := slept w + 300\<rparr>) = Some y"
      by (simp add: Let_def)
    from IH[OF this] obtain k where
      "status_code (gc (requests w @ (url, params) # replicate k (url, params)) (url, params)) \<noteq> 429"
      by auto
    then have "status_code (gc (requests w @ replicate (Suc k) (url, params)) (url, params)) \<noteq> 429"
      by simp
    then show ?thesis by blast
  next
    case False
    then have "status_code (gc (requests w @ replicate 0 (url, params)) (url, params)) \<noteq> 429"
      by simp
    then show ?thesis by blast
  qed
qed



subsection \<open>The pagination reader\<close>

lemma get_ok:
  "\<not> (400 \<le> status_code (gc (requests w) (url, params)) \<and>
       status_code (gc (requests w) (url, params)) < 600) \<Longrightarrow>
   get gc url params w =
     Some (Inr (Some (gc (requests w) (url, params))), w\<lparr>requests := requests w @ [(url, params)]\<rparr>)"
  by (subst get_step_other) (auto simp: Let_def)

lemma get_json_loop_follows:
  "follows gc params (requests w) next_page chain final \<Longrightarrow>
   get_json_loop gc params next_page acc w =
   get_json_loop gc params final (acc @ concat (map snd chain))
     (w\<lparr>requests := requests w @ map (\<lambda>c. (fst c, params)) chain\<rparr>)"
proof (induction chain arbitrary: w next_page acc)
  case Nil
  then show ?case by simp
next
  case (Cons c chain)
  obtain url batch where c: "c = (url, batch)" by (cases c)
  from Cons.prems c obtain body where
    np: "next_page = Some url" "url \<noteq> []"
    and st: "\<not> (400 \<le> status_code (gc (requests w) (url, params)) \<and>
                status_code (gc (requests w) (url, params)) < 600)"
    and js: "json (gc (requests w) (url, params)) = Some body" "value_field body = Some batch"
    and rest: "follows gc params (requests w @ [(url, params)]) (odata_nextLink body) chain final"
    by (auto split: option.splits)
  let ?w1 = "w\<lparr>requests := requests w @ [(url, params)]\<rparr>"
  have "get_json_loop gc params next_page acc w =
        get_json_loop gc params (odata_nextLink body) (acc @ batch) ?w1"
    by (subst get_json_loop.simps) (simp add: np get_ok[of gc w url params, OF st] js)
  also have "\<dots> = get_json_loop gc params final ((acc @ batch) @ concat (map snd chain))
     (?w1\<lparr>requests := requests ?w1 @ map (\<lambda>c. (fst c, params)) chain\<rparr>)"
    using rest by (intro Cons.IH) simp
  finally show ?case by (simp add: c)
qed

text \<open>
  C5. \<open>get_json\<close> fetches the URL and then each continuation link: when the remote
  answers with a chain of batches and the last answer has no continuation link (or an
  empty one), the result is the concatenation of the batches in the order of arrival,
  after one request per batch; when an answer of the chain has no items field, it raises
  \<^verbatim>\<open>RuntimeError\<close>.
\<close>

theorem get_json_follows_links:
  "(follows gc params (requests w) (Some url) chain final \<and> (final = None \<or> final = Some []) \<longrightarrow>
      get_json gc url params w =
        Some (Inr (concat (map snd chain)),
              w\<lparr>requests := requests w @ map (\<lambda>c. (fst c, params)) chain\<rparr>)) \<and>
   (follows gc params (requests w) (Some url) chain (Some bad) \<and> bad \<noteq> [] \<and>
    \<not> (400 \<le> status_code (gc (requests w @ map (\<lambda>c. (fst c, params)) chain) (bad, params)) \<and>
       status_code (gc (requests w @ map (\<lambda>c. (fst c, params)) chain) (bad, params)) < 600) \<and>
    json (gc (requests w @ map (\<lambda>c. (fst c, params)) chain) (bad, params)) = Some body \<and>
    value_field body = None \<longrightarrow>
      get_json gc url params w =
        Some (Inl RuntimeError,
              w\<lparr>requests := requests w @ map (\<lambda>c. (fst c, params)) chain @ [(bad, params)]\<rparr>))"
proof (intro conjI impI)
  assume a: "follows gc params (requests w) (Some url) chain final \<and> (final = None \<or> final = Some [])"
  then have "get_json gc url params w =
    get_json_loop gc params final ([] @ concat (map snd chain))
     (w\<lparr>requests := requests w @ map (\<lambda>c. (fst c, params)) chain\<rparr>)"
    unfolding get_json_def by (intro get_json_loop_follows) simp
  also have "\<dots> = Some (Inr (concat (map snd chain)),
              w\<lparr>requests := requests w @ map (\<lambda>c. (fst c, params)) chain\<rparr>)"
    using a by (subst get_json_loop.simps) auto
  finally show "get_json gc url params w =
        Some (Inr (concat (map snd chain)),
              w\<lparr>requests := requests w @ map (\<lambda>c. (fst c, params)) chain\<rparr>)" .
next
  let ?w1 = "w\<lparr>requests := requests w @ map (\<lambda>c. (fst c, params)) chain\<rparr>"
  assume a: "follows gc params (requests w) (Some url) chain (Some bad) \<and> bad \<noteq> [] \<and>
    \<not> (400 \<le> status_code (gc (requests w @ map (\<lambda>c. (fst c, params)) chain) (bad, params)) \<and>
       status_code (gc (requests w @ map (\<lambda>c. (fst c, params)) chain) (bad, params)) < 600) \<and>
    json (gc (requests w @ map (\<lambda>c. (fst c, params)) chain) (bad, params)) = Some body \<and>
    value_field body = None"
  then have st: "\<not> (400 \<le> status_code (gc (requests ?w1) (bad, params)) \<and>
       status_code (gc (requests ?w1) (bad, params)) < 600)" by simp
  from a have "get_json gc url params w =
    get_json_loop gc params (Some bad) ([] @ concat (map snd chain)) ?w1"
    unfolding get_json_def by (intro get_json_loop_follows) simp
  also have "\<dots> = Some (Inl RuntimeError, ?w1\<lparr>requests := requests ?w1 @ [(bad, params)]\<rparr>)"
    using a by (subst get_json_loop.simps) (simp add: get_ok[of gc ?w1 bad params, OF st])
  finally show "get_json gc url params w =
        Some (Inl RuntimeError,
              w\<lparr>requests := requests w @ map (\<lambda>c. (fst c, params)) chain @ [(bad, params)]\<rparr>)"
    by simp
qed

text \<open>
  Three answers of ten items each, the last without a continuation link: thirty items
  from three requests. A second answer without the items field: \<^verbatim>\<open>RuntimeError\<close>.
\<close>

theorem get_json_follows_links_witness:
  "get_json three_batches ''list'' None world0 =
     Some (Inr (replicate 10 (named ''a'') @ replicate 10 (named ''b'') @ replicate 10 (named ''c'')),
           world0\<lparr>requests := [(''list'', None), (''list?skip=10'', None), (''list?skip=20'', None)]\<rparr>) \<and>
   length (replicate 10 (named ''a'') @ replicate 10 (named ''b'') @ replicate 10 (named ''c'')) = 30 \<and>
   length [(''list'', None :: params option), (''list?skip=10'', None), (''list?skip=20'', None)] = 3 \<and>
   get_json no_value_second ''list'' None world0 =
     Some (Inl RuntimeError, world0\<lparr>requests := [(''list'', None), (''more'', None)]\<rparr>)"
  using get_json_follows_links[of three_batches None world0 "''list''"
      "[(''list'', replicate 10 (named ''a'')), (''list?skip=10'', replicate 10 (named ''b'')),
        (''list?skip=20'', replicate 10 (named ''c''))]" None]
    get_json_follows_links[of no_value_second None world0 "''list''"
      "[(''list'', [named ''a''])]" _ "''more''" "\<lparr>value_field = None, odata_nextLink = None\<rparr>"]
  by (simp add: three_batches_def no_value_second_def list_response_def status_only_def world0_def)

subsection \<open>The selection filter\<close>

lemma matching_filter:
  "\<forall>i\<in>set items. item_name i \<noteq> None \<Longrightarrow>
   matching L pat items = Inr (filter (matches L pat) items)"
  by (induction items) (auto simp: matches_def)

lemma filter_items_Cons:
  "\<forall>i\<in>set items. item_name i \<noteq> None \<Longrightarrow>
   filter_items L items (s # ss) = Inr (filter (matches L s) items, ss)"
  by (simp add: filter_items_def matching_filter)

text \<open>
  C7. With no segment left, \<open>filter_items\<close> returns the items as they are, with the empty
  segment list. Otherwise, for items that each have a display name or a title, it
  returns exactly the items whose name (the display name, or else the title) matches
  the first segment, both in lower case, under \<open>fnmatch\<close>, together with the remaining
  segments. Each level of the walker filters before it loops: its loop runs over the
  matching items only, so no endpoint of another item is requested.
\<close>

theorem filter_items_selects:
  "filter_items L items [] = Inr (items, []) \<and>
   ((\<forall>i\<in>set items. item_name i \<noteq> None) \<longrightarrow>
      filter_items L items (s # ss) = Inr (filter (matches L s) items, ss) \<and>
      download_pages L gc items path (s # ss) w =
        download_pages L gc (filter (matches L s) items) path [] w \<and>
      download_sections L gc items path (s # ss) w =
        sections_loop L gc (filter (matches L s) items) path ss w \<and>
      download_section_groups L gc items path (s # ss) w =
        section_groups_loop L gc (filter (matches L s) items) path ss w \<and>
      (get_json gc (graph_url @ ''/me/onenote/notebooks'') None w0 = Some (Inr items, w) \<longrightarrow>
         download_notebooks L gc path (s # ss) w0 =
           notebooks_loop L gc (filter (matches L s) items) path ss w))"
  by (simp add: filter_items_Cons download_pages_def download_sections_def
      download_section_groups_def download_notebooks_def bind_res_simps)
    (simp add: filter_items_def)

text \<open>
  The notebooks \<open>Work\<close> and \<open>Personal\<close> under the selector \<open>w*\<close>: only \<open>Work\<close> is kept, and
  the run requests the list of notebooks and the two endpoints of \<open>Work\<close>, nothing of
  \<open>Personal\<close>.
\<close>

lemma get_json_list:
  "get_json two_notebooks url None w =
     (if url = [] then Some (Inr [], w)
      else Some (Inr (if url = graph_url @ ''/me/onenote/notebooks''
                      then [notebook ''Work'' ''work/sections'' ''work/groups'',
                            notebook ''Personal'' ''personal/sections'' ''personal/groups'']
                      else []),
                 w\<lparr>requests := requests w @ [(url, None)]\<rparr>))"
  unfolding get_json_def
  apply (subst get_json_loop.simps)
  apply (subst get_step_other)
   apply (simp add: two_notebooks_def list_response_def)
  apply (subst get_json_loop.simps)
  apply (simp add: two_notebooks_def list_response_def Let_def)
  done

theorem filter_items_selects_witness:
  "filter_items lib0 [notebook ''Work'' ''work/sections'' ''work/groups'',
                      notebook ''Personal'' ''personal/sections'' ''personal/groups''] [''w*''] =
     Inr ([notebook ''Work'' ''work/sections'' ''work/groups''], []) \<and>
   download_notebooks lib0 two_notebooks [''out''] [''w*''] world0 =
     Some (Inr (), world0\<lparr>requests :=
       [(graph_url @ ''/me/onenote/notebooks'', None), (''work/sections'', None),
        (''work/groups'', None)]\<rparr>)"
  using filter_items_selects[of lib0
      "[notebook ''Work'' ''work/sections'' ''work/groups'',
        notebook ''Personal'' ''personal/sections'' ''personal/groups'']"
      "''w*''" "[]" two_notebooks "[''out'']"
      "world0\<lparr>requests := [(graph_url @ ''/me/onenote/notebooks'', None)]\<rparr>" world0]
  apply (simp add: get_json_list)
  apply (simp add: world0_def matches_def item_name_def notebook_def named_def lib0_def ascii_lower_def
      get_json_list bind_res_simps download_sections_def download_section_groups_def filter_items_def
      graph_url_def)
  done

subsection \<open>Sorting and placing the pages\<close>

lemma order_pairs_present:
  "\<forall>p\<in>set pages. order p \<noteq> None \<Longrightarrow>
   order_pairs pages = Inr (map (\<lambda>p. (the (order p), p)) pages)"
  by (induction pages) auto

lemma tuple_lt_error: "tuple_lt a b = Inl e \<Longrightarrow> e = TypeError"
  by (auto simp: tuple_lt_def split: if_splits)

lemma insort_py_error: "insort_py x ys = Inl e \<Longrightarrow> e = TypeError"
  by (induction ys arbitrary: e)
     (auto split: sum.splits bool.splits dest: tuple_lt_error)

lemma sorted_py_error: "sorted_py xs = Inl e \<Longrightarrow> e = TypeError"
  by (induction xs arbitrary: e) (auto split: sum.splits dest: insort_py_error)

lemma insort_py_Cons:
  "insort_py x (y # ys) = Inr zs \<Longrightarrow>
   (tuple_lt x y = Inr True \<and> zs = x # y # ys) \<or>
   (tuple_lt x y = Inr False \<and> (\<exists>zs'. insort_py x ys = Inr zs' \<and> zs = y # zs'))"
  by (cases "tuple_lt x y"; cases "insort_py x ys") (auto split: bool.splits)

lemma insort_py_set: "insort_py x ys = Inr zs \<Longrightarrow> set zs = insert x (set ys)"
proof (induction ys arbitrary: zs)
  case Nil
  then show ?case by auto
next
  case (Cons y ys)
  from insort_py_Cons[OF Cons.prems] show ?case
  proof
    assume "tuple_lt x y = Inr True \<and> zs = x # y # ys"
    then show ?thesis by auto
  next
    assume "tuple_lt x y = Inr False \<and> (\<exists>zs'. insort_py x ys = Inr zs' \<and> zs = y # zs')"
    then obtain zs' where z: "insort_py x ys = Inr zs'" "zs = y # zs'" by blast
    from Cons.IH[OF z(1)] z(2) show ?thesis by auto
  qed
qed

lemma sorted_py_set: "sorted_py xs = Inr ys \<Longrightarrow> set ys = set xs"
  by (induction xs arbitrary: ys) (auto split: sum.splits dest: insort_py_set)

lemma insort_py_sorted:
  "insort_py x ys = Inr zs \<Longrightarrow> sorted (map fst ys) \<Longrightarrow> sorted (map fst zs)"
proof (induction ys arbitrary: zs)
  case Nil
  then show ?case by auto
next
  case (Cons y ys)
  show ?case
  proof (cases "tuple_lt x y")
    case (Inl e)
    with Cons.prems show ?thesis by simp
  next
    case (Inr b)
    show ?thesis
    proof (cases b)
      case True
      with Inr have lt: "fst x < fst y"
        by (auto simp: tuple_lt_def split: if_splits)
      from True Inr Cons.prems have zs: "zs = x # y # ys" by simp
      have "\<forall>k\<in>set (map fst (y # ys)). fst x \<le> k"
        using lt Cons.prems(2) by fastforce
      then show ?thesis using zs Cons.prems(2) by simp
    next
      case False
      with Inr Cons.prems obtain zs' where z: "insort_py x ys = Inr zs'" "zs = y # zs'"
        by (auto split: sum.splits)
      from False Inr have le: "fst y \<le> fst x"
        by (auto simp: tuple_lt_def split: if_splits)
      have "sorted (map fst zs')" using Cons.IH[OF z(1)] Cons.prems(2) by simp
      moreover have "\<forall>k\<in>set (map fst zs'). fst y \<le> k"
        using insort_py_set[OF z(1)] Cons.prems(2) le by auto
      ultimately show ?thesis using z(2) by simp
    qed
  qed
qed

lemma sorted_py_sorted: "sorted_py xs = Inr ys \<Longrightarrow> sorted (map fst ys)"
  by (induction xs arbitrary: ys) (auto split: sum.splits dest: insort_py_sorted)

lemma insort_py_conflict:
  "y \<in> set ys \<Longrightarrow> fst x = fst y \<Longrightarrow> snd x \<noteq> snd y \<Longrightarrow> sorted (map fst ys) \<Longrightarrow>
   insort_py x ys = Inl TypeError"
proof (induction ys)
  case Nil
  then show ?case by simp
next
  case (Cons z ys)
  show ?case
  proof (cases "y = z")
    case True
    with Cons.prems show ?thesis by (simp add: tuple_lt_def)
  next
    case False
    with Cons.prems have yin: "y \<in> set ys" by simp
    with Cons.prems have "fst z \<le> fst x" by auto
    then have "tuple_lt x z = Inl TypeError \<or> tuple_lt x z = Inr False"
      by (auto simp: tuple_lt_def)
    moreover have "insort_py x ys = Inl TypeError"
      using Cons.IH[OF yin] Cons.prems by simp
    ultimately show ?thesis by auto
  qed
qed

lemma sorted_py_conflict:
  "a \<in> set xs \<Longrightarrow> b \<in> set xs \<Longrightarrow> fst a = fst b \<Longrightarrow> snd a \<noteq> snd b \<Longrightarrow>
   sorted_py xs = Inl TypeError"
proof (induction xs)
  case Nil
  then show ?case by simp
next
  case (Cons x xs)
  show ?case
  proof (cases "sorted_py xs")
    case (Inl e)
    then show ?thesis using sorted_py_error[OF Inl] by simp
  next
    case (Inr ys)
    have both_in: "\<not> (a \<in> set xs \<and> b \<in> set xs)"
      using Cons.IH Cons.prems(3,4) Inr by auto
    have "\<exists>y\<in>set ys. fst x = fst y \<and> snd x \<noteq> snd y"
    proof (cases "a = x")
      case True
      with Cons.prems have "b \<in> set xs" by auto
      with True Cons.prems sorted_py_set[OF Inr] show ?thesis by auto
    next
      case False
      with Cons.prems have ain: "a \<in> set xs" by auto
      with both_in Cons.prems have "b = x" by auto
      with ain Cons.prems sorted_py_set[OF Inr] show ?thesis
        by (intro bexI[of _ a]) auto
    qed
    then obtain y where "y \<in> set ys" "fst x = fst y" "snd x \<noteq> snd y" by blast
    from insort_py_conflict[OF this sorted_py_sorted[OF Inr]] Inr show ?thesis by simp
  qed
qed

lemma insort_py_distinct:
  "fst x \<notin> fst ` set ys \<Longrightarrow> insort_py x ys = Inr (insort_key fst x ys)"
  by (induction ys) (auto simp: tuple_lt_def)

lemma sorted_py_distinct:
  "distinct (map fst xs) \<Longrightarrow> sorted_py xs = Inr (sort_key fst xs)"
proof (induction xs)
  case Nil
  then show ?case by simp
next
  case (Cons x xs)
  then have "sorted_py xs = Inr (sort_key fst xs)" by simp
  moreover have "fst x \<notin> fst ` set (sort_key fst xs)" using Cons.prems by simp
  ultimately show ?case by (simp add: insort_py_distinct)
qed

lemma insort_key_pairs_shape:
  "insort_key fst (f x, x) (map (\<lambda>p. (f p, p)) ys) = map (\<lambda>p. (f p, p)) (insort_key f x ys)"
  by (induction ys) auto

lemma sort_key_pairs:
  "sort_key fst (map (\<lambda>p. (f p, p)) xs) = map (\<lambda>p. (f p, p)) (sort_key f xs)"
  by (induction xs) (auto simp: insort_key_pairs_shape)

lemma pages_loop_places:
  "\<forall>p\<in>set ps. level p \<in> {Some 0, Some 1, Some 2} \<and> title p \<noteq> None \<and> contentUrl p \<noteq> None \<Longrightarrow>
   pages_loop L gc (map (\<lambda>p. (f p, p)) ps) (base, a1, a2) pd w =
   materialize_all L gc (place_pages L base a1 a2 ps) w"
proof (induction ps arbitrary: a1 a2 pd w)
  case Nil
  then show ?case by simp
next
  case (Cons p ps)
  then obtain lv t url where p: "level p = Some lv" "lv = 0 \<or> lv = 1 \<or> lv = 2"
    "title p = Some t" "contentUrl p = Some url"
    by auto
  have IH: "\<And>a1 a2 pd. pages_loop L gc (map (\<lambda>p. (f p, p)) ps) (base, a1, a2) pd =
     materialize_all L gc (place_pages L base a1 a2 ps)"
    using Cons by (intro ext) simp
  from p(2) show ?case
    by (elim disjE) (simp_all add: p IH file_title_def Let_def)
qed

text \<open>
  C3, for pages whose order values are pairwise different. \<open>download_pages\<close> on pages
  that each carry an order, a level of 0, 1 or 2, a title and a content URL does what
  \<open>walk_pages_spec\<close> says: one sort of the whole collection by order, then each page
  materialized in turn, a page of level 0 in the base directory, a page of level 1 in
  base/anchor1, a page of level 2 in base/anchor1/anchor2, the anchors being the titles
  (as sanitized) with \<open>.NOTES\<close> of the last page of level 0 and of level 1 seen.
\<close>

theorem download_pages_places:
  "(\<forall>p\<in>set pages. order p \<noteq> None \<and> level p \<in> {Some 0, Some 1, Some 2} \<and>
                   title p \<noteq> None \<and> contentUrl p \<noteq> None) \<and>
   distinct (map order pages) \<longrightarrow>
   download_pages L gc pages base [] w = walk_pages_spec L gc pages base w"
proof
  assume a: "(\<forall>p\<in>set pages. order p \<noteq> None \<and> level p \<in> {Some 0, Some 1, Some 2} \<and>
                   title p \<noteq> None \<and> contentUrl p \<noteq> None) \<and>
   distinct (map order pages)"
  let ?f = "\<lambda>p. the (order p)"
  have op: "order_pairs pages = Inr (map (\<lambda>p. (?f p, p)) pages)"
    using a by (intro order_pairs_present) simp
  have io: "inj_on order (set pages)" using a by (simp add: distinct_map)
  have "inj_on ?f (set pages)"
  proof (rule inj_onI)
    fix p q assume pq: "p \<in> set pages" "q \<in> set pages" "?f p = ?f q"
    with a have "order p = order q" by (cases "order p"; cases "order q") auto
    with pq io show "p = q" by (simp add: inj_on_def)
  qed
  with a have d: "distinct (map fst (map (\<lambda>p. (?f p, p)) pages))"
    by (simp add: distinct_map comp_def)
  have sp: "sorted_py (map (\<lambda>p. (?f p, p)) pages) = Inr (map (\<lambda>p. (?f p, p)) (sort_key ?f pages))"
    using sorted_py_distinct[OF d] by (simp add: sort_key_pairs)
  have "\<forall>p\<in>set (sort_key ?f pages). level p \<in> {Some 0, Some 1, Some 2} \<and> title p \<noteq> None \<and>
          contentUrl p \<noteq> None"
    using a by simp
  then have "pages_loop L gc (map (\<lambda>p. (?f p, p)) (sort_key ?f pages)) (base, [], []) None w =
     materialize_all L gc (place_pages L base [] [] (sort_key ?f pages)) w"
    by (rule pages_loop_places)
  then show "download_pages L gc pages base [] w = walk_pages_spec L gc pages base w"
    by (simp add: download_pages_def filter_items_def op sp walk_pages_spec_def)
qed

subsection \<open>Evaluating the examples\<close>

lemmas eval_defs = download_page_def download_attachments_def path_div_def str_parts_def
  path_exists_def node_at_def os_mkdir_def mkdir_exist_ok_def is_dir_def open_write_def
  match_star_def match_plus_def bind_res_simps Let_def mkdir_parents.simps

lemma get_serves_pages:
  "get serves_pages url None w =
     Some (Inr (Some \<lparr>status_code = 200, json = None, content = ''x''\<rparr>),
           w\<lparr>requests := requests w @ [(url, None)]\<rparr>)"
  by (subst get_step_other) (simp_all add: serves_pages_def)

lemma three_pages_placed:
  "place_pages lib0 [''out''] [] []
     (sort_key (\<lambda>p. the (order p))
        [page ''Grand'' 3 2 ''u3'', page ''Root'' 1 0 ''u1'', page ''Child'' 2 1 ''u2'']) =
   [(''u1'', [''out''], ''Root''), (''u2'', [''out'', ''Root.NOTES''], ''Child''),
    (''u3'', [''out'', ''Root.NOTES'', ''Child.NOTES''], ''Grand'')]"
  by (simp add: page_def file_title_def lib0_def strip_slashes_def path_div_def str_parts_def)

lemma three_pages_run:
  "materialize_all lib0 serves_pages
     [(''u1'', [''out''], ''Root''), (''u2'', [''out'', ''Root.NOTES''], ''Child''),
      (''u3'', [''out'', ''Root.NOTES'', ''Child.NOTES''], ''Grand'')] world0 =
   Some (Inr (),
     \<lparr>requests = [(''u1'', None), (''u2'', None), (''u3'', None)], slept = 0,
      fs = Map.empty
        ([''out''] \<mapsto> Dir,
         [''out'', ''Root.html''] \<mapsto> File ''x'',
         [''out'', ''Root.NOTES''] \<mapsto> Dir,
         [''out'', ''Root.NOTES'', ''Child.html''] \<mapsto> File ''x'',
         [''out'', ''Root.NOTES'', ''Child.NOTES''] \<mapsto> Dir,
         [''out'', ''Root.NOTES'', ''Child.NOTES'', ''Grand.html''] \<mapsto> File ''x'')\<rparr>)"
  by (simp add: eval_defs world0_def lib0_def get_serves_pages)

text \<open>
  The pages \<open>Root\<close> (order 1, level 0), \<open>Child\<close> (order 2, level 1) and \<open>Grand\<close> (order 3,
  level 2), given out of order, are written to \<open>Root.html\<close>, \<open>Root.NOTES/Child.html\<close> and
  \<open>Root.NOTES/Child.NOTES/Grand.html\<close> under the base directory.
\<close>

theorem download_pages_places_witness:
  "download_pages lib0 serves_pages
     [page ''Grand'' 3 2 ''u3'', page ''Root'' 1 0 ''u1'', page ''Child'' 2 1 ''u2'']
     [''out''] [] world0 =
   Some (Inr (),
     \<lparr>requests = [(''u1'', None), (''u2'', None), (''u3'', None)], slept = 0,
      fs = Map.empty
        ([''out''] \<mapsto> Dir,
         [''out'', ''Root.html''] \<mapsto> File ''x'',
         [''out'', ''Root.NOTES''] \<mapsto> Dir,
         [''out'', ''Root.NOTES'', ''Child.html''] \<mapsto> File ''x'',
         [''out'', ''Root.NOTES'', ''Child.NOTES''] \<mapsto> Dir,
         [''out'', ''Root.NOTES'', ''Child.NOTES'', ''Grand.html''] \<mapsto> File ''x'')\<rparr>)"
proof -
  let ?pages = "[page ''Grand'' 3 2 ''u3'', page ''Root'' 1 0 ''u1'', page ''Child'' 2 1 ''u2'']"
  have "(\<forall>p\<in>set ?pages. order p \<noteq> None \<and> level p \<in> {Some 0, Some 1, Some 2} \<and>
           title p \<noteq> None \<and> contentUrl p \<noteq> None) \<and> distinct (map order ?pages)"
    by (simp add: page_def)
  with download_pages_places[of ?pages lib0 serves_pages "[''out'']" world0]
  have "download_pages lib0 serves_pages ?pages [''out''] [] world0 =
        walk_pages_spec lib0 serves_pages ?pages [''out''] world0"
    by blast
  then show ?thesis
    unfolding walk_pages_spec_def three_pages_placed three_pages_run .
qed

text \<open>
  Two different pages with the same order: the sort raises \<^verbatim>\<open>TypeError\<close> and no page is
  materialized, where the specification's walk writes both.
\<close>

theorem download_pages_tie_counterexample:
  "download_pages lib0 serves_pages [page ''A'' 1 0 ''ua'', page ''B'' 1 0 ''ub'']
     [''out''] [] world0 = Some (Inl TypeError, world0) \<and>
   download_pages lib0 serves_pages [page ''A'' 1 0 ''ua'', page ''B'' 1 0 ''ub'']
     [''out''] [] world0 \<noteq>
   walk_pages_spec lib0 serves_pages [page ''A'' 1 0 ''ua'', page ''B'' 1 0 ''ub'']
     [''out''] world0"
  by (simp add: download_pages_def filter_items_def page_def tuple_lt_def walk_pages_spec_def
      file_title_def lib0_def strip_slashes_def eval_defs get_serves_pages world0_def)

text \<open>
  C10. The sort of \<open>download_pages\<close> compares (order, page) pairs; when two different
  page records of the (filtered) collection have the same order, the comparison falls
  through to the records and \<open>download_pages\<close> raises \<^verbatim>\<open>TypeError\<close> before any page is
  materialized.
\<close>

theorem equal_order_raises:
  "filter_items L pages select = Inr (pages1, select1) \<and>
   (\<forall>x\<in>set pages1. order x \<noteq> None) \<and>
   p \<in> set pages1 \<and> q \<in> set pages1 \<and> order p = order q \<and> p \<noteq> q \<longrightarrow>
   download_pages L gc pages path select w = Some (Inl TypeError, w)"
proof
  assume a: "filter_items L pages select = Inr (pages1, select1) \<and>
   (\<forall>x\<in>set pages1. order x \<noteq> None) \<and>
   p \<in> set pages1 \<and> q \<in> set pages1 \<and> order p = order q \<and> p \<noteq> q"
  let ?f = "\<lambda>p. the (order p)"
  have op: "order_pairs pages1 = Inr (map (\<lambda>p. (?f p, p)) pages1)"
    using a by (intro order_pairs_present) simp
  have "sorted_py (map (\<lambda>p. (?f p, p)) pages1) = Inl TypeError"
  proof (rule sorted_py_conflict[of "(?f p, p)" _ "(?f q, q)"])
    have pq: "p \<in> set pages1" "q \<in> set pages1" using a by simp_all
    show "(?f p, p) \<in> set (map (\<lambda>p. (?f p, p)) pages1)"
      unfolding set_map using pq(1) by (rule image_eqI[OF refl])
    show "(?f q, q) \<in> set (map (\<lambda>p. (?f p, p)) pages1)"
      unfolding set_map using pq(2) by (rule image_eqI[OF refl])
    show "fst (?f p, p) = fst (?f q, q)" using a by simp
    show "snd (?f p, p) \<noteq> snd (?f q, q)" using a by simp
  qed
  with a op show "download_pages L gc pages path select w = Some (Inl TypeError, w)"
    by (simp add: download_pages_def)
qed

text \<open>An input with two pages of order 7, on which the operation fails.\<close>

theorem equal_order_raises_witness:
  "download_pages lib0 serves_pages [page ''A'' 7 0 ''ua'', page ''B'' 7 1 ''ub'']
     [''out''] [] world0 = Some (Inl TypeError, world0)"
  using equal_order_raises[of lib0 "[page ''A'' 7 0 ''ua'', page ''B'' 7 1 ''ub'']" "[]"
      "[page ''A'' 7 0 ''ua'', page ''B'' 7 1 ''ub'']" "[]"
      "page ''A'' 7 0 ''ua''" "page ''B'' 7 1 ''ub''" serves_pages "[''out'']" world0]
  by (simp add: filter_items_def page_def)

lemma get_result:
  assumes "get gc url params w = Some (r, w')"
  shows "\<exists>n. w' = w\<lparr>requests := requests w @ replicate (Suc n) (url, params),
                      slept := slept w + 300 * n\<rparr>"
proof -
  let ?bad = "\<lambda>k. status_code (gc (requests w @ replicate k (url, params)) (url, params)) \<noteq> 429"
  from get_Some_not429[OF assms] obtain k where "?bad k" by blast
  define n where "n = (LEAST k. ?bad k)"
  have n: "?bad n" unfolding n_def using \<open>?bad k\<close> by (rule LeastI)
  have below: "\<forall>k<n. \<not> ?bad k" unfolding n_def using not_less_Least by blast
  let ?wn = "w\<lparr>requests := requests w @ replicate n (url, params), slept := slept w + 300 * n\<rparr>"
  have "get gc url params w = get gc url params ?wn"
    using below by (intro get_retries) simp
  moreover have "get gc url params ?wn =
    Some (let resp = gc (requests ?wn) (url, params)
         in if status_code resp = 500 \<or> status_code resp = 504 then Inr None
            else if 400 \<le> status_code resp \<and> status_code resp < 600
                 then Inl (HTTPError (status_code resp))
            else Inr (Some resp),
         ?wn\<lparr>requests := requests ?wn @ [(url, params)]\<rparr>)"
    using n by (intro get_step_other) simp
  ultimately have "w' = ?wn\<lparr>requests := requests ?wn @ [(url, params)]\<rparr>"
    using assms by simp
  then have "w' = w\<lparr>requests := requests w @ replicate (Suc n) (url, params),
                      slept := slept w + 300 * n\<rparr>"
    by (simp add: replicate_append_same)
  then show ?thesis by blast
qed

lemma get_fs: "get gc url params w = Some (r, w') \<Longrightarrow> fs w' = fs w"
  by (drule get_result) auto

subsection \<open>The attachment resolver\<close>

lemma download_image_props:
  assumes "parse_attrs L tag = Some props" "map_of props ''src'' \<noteq> None"
    "map_of props ''data-src-type'' \<noteq> None"
  shows "download_image L gc ad dn tag w =
     (if path_exists w (path_div ad (image_file L props))
      then Some (Inr (local_image_tag L dn props), w)
      else bind_res (get gc (image_source props) None w) (\<lambda>req w1.
           (case req of
              None \<Rightarrow> Some (Inr tag, w1)
            | Some r \<Rightarrow>
                (case mkdir_exist_ok (fs w1) ad of
                   Inl e \<Rightarrow> Some (Inl e, w1)
                 | Inr f1 \<Rightarrow>
                     (case open_write f1 (path_div ad (image_file L props)) (content r) of
                        Inl e \<Rightarrow> Some (Inl e, w1\<lparr>fs := f1\<rparr>)
                      | Inr f2 \<Rightarrow> Some (Inr (local_image_tag L dn props), w1\<lparr>fs := f2\<rparr>))))))"
proof -
  from assms obtain s t where st: "map_of props ''src'' = Some s"
    "map_of props ''data-src-type'' = Some t"
    by auto
  show ?thesis
    unfolding download_image_def image_file_def image_source_def local_image_tag_def Let_def
      assms(1) st option.case option.sel
    by simp
qed

lemma download_attachment_props:
  assumes "parse_attrs L tag = Some props" "map_of props ''data'' \<noteq> None"
    "map_of props ''data-attachment'' \<noteq> None"
  shows "download_attachment L gc ad dn tag w =
     (if path_exists w (path_div ad (the (map_of props ''data-attachment'')))
      then Some (Inr (local_object_tag L dn props), w)
      else bind_res (get gc (the (map_of props ''data'')) None w) (\<lambda>req w1.
           (case req of
              None \<Rightarrow> Some (Inr tag, w1)
            | Some r \<Rightarrow>
                (case mkdir_exist_ok (fs w1) ad of
                   Inl e \<Rightarrow> Some (Inl e, w1)
                 | Inr f1 \<Rightarrow>
                     (case open_write f1 (path_div ad (the (map_of props ''data-attachment'')))
                             (content r) of
                        Inl e \<Rightarrow> Some (Inl e, w1\<lparr>fs := f1\<rparr>)
                      | Inr f2 \<Rightarrow> Some (Inr (local_object_tag L dn props), w1\<lparr>fs := f2\<rparr>))))))"
proof -
  from assms obtain d a where da: "map_of props ''data'' = Some d"
    "map_of props ''data-attachment'' = Some a"
    by auto
  show ?thesis
    unfolding download_attachment_def local_object_tag_def Let_def
      assms(1) da option.case option.sel
    by simp
qed

lemma open_write_exists:
  "open_write f p data = Inr f' \<Longrightarrow> node_at f' p \<noteq> None"
  by (auto simp: open_write_def node_at_def split: option.splits node.splits if_splits)

text \<open>
  C8. When the local file of an image or of an attachment already exists in the
  attachment directory, the handler of the tag issues no request and writes nothing: it
  returns the tag rewritten to the local relative path. And when the file does not exist
  and the fetch delivers the body, the handler issues that one fetch and the file exists
  afterwards, so that a later reference to the same file name finds it and causes no
  second download.
\<close>

theorem attachment_gate:
  "(parse_attrs L tag = Some props \<and> map_of props ''src'' \<noteq> None \<and>
    map_of props ''data-src-type'' \<noteq> None \<and>
    path_exists w (path_div ad (image_file L props)) \<longrightarrow>
      download_image L gc ad dn tag w = Some (Inr (local_image_tag L dn props), w)) \<and>
   (parse_attrs L tag = Some props \<and> map_of props ''data'' \<noteq> None \<and>
    map_of props ''data-attachment'' \<noteq> None \<and>
    path_exists w (path_div ad (the (map_of props ''data-attachment''))) \<longrightarrow>
      download_attachment L gc ad dn tag w = Some (Inr (local_object_tag L dn props), w)) \<and>
   (parse_attrs L tag = Some props \<and> map_of props ''src'' \<noteq> None \<and>
    map_of props ''data-src-type'' \<noteq> None \<and>
    \<not> path_exists w (path_div ad (image_file L props)) \<and>
    get gc (image_source props) None w = Some (Inr (Some r), w1) \<and>
    download_image L gc ad dn tag w = Some (Inr out, w2) \<longrightarrow>
      requests w2 = requests w1 \<and> path_exists w2 (path_div ad (image_file L props))) \<and>
   (parse_attrs L tag = Some props \<and> map_of props ''data'' \<noteq> None \<and>
    map_of props ''data-attachment'' \<noteq> None \<and>
    \<not> path_exists w (path_div ad (the (map_of props ''data-attachment''))) \<and>
    get gc (the (map_of props ''data'')) None w = Some (Inr (Some r), w1) \<and>
    download_attachment L gc ad dn tag w = Some (Inr out, w2) \<longrightarrow>
      requests w2 = requests w1 \<and>
      path_exists w2 (path_div ad (the (map_of props ''data-attachment''))))"
proof (intro conjI impI)
  assume "parse_attrs L tag = Some props \<and> map_of props ''src'' \<noteq> None \<and>
    map_of props ''data-src-type'' \<noteq> None \<and>
    path_exists w (path_div ad (image_file L props))"
  then show "download_image L gc ad dn tag w = Some (Inr (local_image_tag L dn props), w)"
    by (simp add: download_image_props)
next
  assume "parse_attrs L tag = Some props \<and> map_of props ''data'' \<noteq> None \<and>
    map_of props ''data-attachment'' \<noteq> None \<and>
    path_exists w (path_div ad (the (map_of props ''data-attachment'')))"
  then show "download_attachment L gc ad dn tag w = Some (Inr (local_object_tag L dn props), w)"
    by (simp add: download_attachment_props)
next
  assume a: "parse_attrs L tag = Some props \<and> map_of props ''src'' \<noteq> None \<and>
    map_of props ''data-src-type'' \<noteq> None \<and>
    \<not> path_exists w (path_div ad (image_file L props)) \<and>
    get gc (image_source props) None w = Some (Inr (Some r), w1) \<and>
    download_image L gc ad dn tag w = Some (Inr out, w2)"
  then have "download_image L gc ad dn tag w =
      bind_res (get gc (image_source props) None w) (\<lambda>req w1.
           (case req of
              None \<Rightarrow> Some (Inr tag, w1)
            | Some r \<Rightarrow>
                (case mkdir_exist_ok (fs w1) ad of
                   Inl e \<Rightarrow> Some (Inl e, w1)
                 | Inr f1 \<Rightarrow>
                     (case open_write f1 (path_div ad (image_file L props)) (content r) of
                        Inl e \<Rightarrow> Some (Inl e, w1\<lparr>fs := f1\<rparr>)
                      | Inr f2 \<Rightarrow> Some (Inr (local_image_tag L dn props), w1\<lparr>fs := f2\<rparr>)))))"
    by (subst download_image_props[of L tag props]) simp_all
  moreover from a have "get gc (image_source props) None w = Some (Inr (Some r), w1)"
    and "download_image L gc ad dn tag w = Some (Inr out, w2)" by simp_all
  ultimately have "(case mkdir_exist_ok (fs w1) ad of
                   Inl e \<Rightarrow> Some (Inl e, w1)
                 | Inr f1 \<Rightarrow>
                     (case open_write f1 (path_div ad (image_file L props)) (content r) of
                        Inl e \<Rightarrow> Some (Inl e, w1\<lparr>fs := f1\<rparr>)
                      | Inr f2 \<Rightarrow> Some (Inr (local_image_tag L dn props), w1\<lparr>fs := f2\<rparr>))) =
             Some (Inr out, w2)"
    by (simp add: bind_res_simps)
  then obtain f1 f2 where "open_write f1 (path_div ad (image_file L props)) (content r) = Inr f2"
    "w2 = w1\<lparr>fs := f2\<rparr>"
    by (auto split: sum.splits)
  then show "requests w2 = requests w1" "path_exists w2 (path_div ad (image_file L props))"
    using open_write_exists by (auto simp: path_exists_def)
next
  assume a: "parse_attrs L tag = Some props \<and> map_of props ''data'' \<noteq> None \<and>
    map_of props ''data-attachment'' \<noteq> None \<and>
    \<not> path_exists w (path_div ad (the (map_of props ''data-attachment''))) \<and>
    get gc (the (map_of props ''data'')) None w = Some (Inr (Some r), w1) \<and>
    download_attachment L gc ad dn tag w = Some (Inr out, w2)"
  then have "download_attachment L gc ad dn tag w =
      bind_res (get gc (the (map_of props ''data'')) None w) (\<lambda>req w1.
           (case req of
              None \<Rightarrow> Some (Inr tag, w1)
            | Some r \<Rightarrow>
                (case mkdir_exist_ok (fs w1) ad of
                   Inl e \<Rightarrow> Some (Inl e, w1)
                 | Inr f1 \<Rightarrow>
                     (case open_write f1 (path_div ad (the (map_of props ''data-attachment'')))
                             (content r) of
                        Inl e \<Rightarrow> Some (Inl e, w1\<lparr>fs := f1\<rparr>)
                      | Inr f2 \<Rightarrow> Some (Inr (local_object_tag L dn props), w1\<lparr>fs := f2\<rparr>)))))"
    by (subst download_attachment_props[of L tag props]) simp_all
  moreover from a have "get gc (the (map_of props ''data'')) None w = Some (Inr (Some r), w1)"
    and "download_attachment L gc ad dn tag w = Some (Inr out, w2)" by simp_all
  ultimately have "(case mkdir_exist_ok (fs w1) ad of
                   Inl e \<Rightarrow> Some (Inl e, w1)
                 | Inr f1 \<Rightarrow>
                     (case open_write f1 (path_div ad (the (map_of props ''data-attachment'')))
                             (content r) of
                        Inl e \<Rightarrow> Some (Inl e, w1\<lparr>fs := f1\<rparr>)
                      | Inr f2 \<Rightarrow> Some (Inr (local_object_tag L dn props), w1\<lparr>fs := f2\<rparr>))) =
             Some (Inr out, w2)"
    by (simp add: bind_res_simps)
  then obtain f1 f2 where
    "open_write f1 (path_div ad (the (map_of props ''data-attachment''))) (content r) = Inr f2"
    "w2 = w1\<lparr>fs := f2\<rparr>"
    by (auto split: sum.splits)
  then show "requests w2 = requests w1"
    "path_exists w2 (path_div ad (the (map_of props ''data-attachment'')))"
    using open_write_exists by (auto simp: path_exists_def)
qed

text \<open>
  The handlers of the tags on an unavailable binary: when the local file does not exist
  and the fetch returns \<^verbatim>\<open>None\<close>, \<open>download_image\<close> and \<open>download_attachment\<close> return the
  text of the tag as it was matched, and the file system is as before.
\<close>

lemma unavailable_keeps_tag:
  "(parse_attrs L tag = Some props \<and> map_of props ''src'' \<noteq> None \<and>
    map_of props ''data-src-type'' \<noteq> None \<and>
    \<not> path_exists w (path_div ad (image_file L props)) \<and>
    get gc (image_source props) None w = Some (Inr None, w1) \<longrightarrow>
      download_image L gc ad dn tag w = Some (Inr tag, w1) \<and> fs w1 = fs w) \<and>
   (parse_attrs L tag = Some props \<and> map_of props ''data'' \<noteq> None \<and>
    map_of props ''data-attachment'' \<noteq> None \<and>
    \<not> path_exists w (path_div ad (the (map_of props ''data-attachment''))) \<and>
    get gc (the (map_of props ''data'')) None w = Some (Inr None, w1) \<longrightarrow>
      download_attachment L gc ad dn tag w = Some (Inr tag, w1) \<and> fs w1 = fs w)"
proof (intro conjI impI)
  assume a: "parse_attrs L tag = Some props \<and> map_of props ''src'' \<noteq> None \<and>
    map_of props ''data-src-type'' \<noteq> None \<and>
    \<not> path_exists w (path_div ad (image_file L props)) \<and>
    get gc (image_source props) None w = Some (Inr None, w1)"
  then have "download_image L gc ad dn tag w =
      bind_res (get gc (image_source props) None w) (\<lambda>req w1.
           (case req of
              None \<Rightarrow> Some (Inr tag, w1)
            | Some r \<Rightarrow>
                (case mkdir_exist_ok (fs w1) ad of
                   Inl e \<Rightarrow> Some (Inl e, w1)
                 | Inr f1 \<Rightarrow>
                     (case open_write f1 (path_div ad (image_file L props)) (content r) of
                        Inl e \<Rightarrow> Some (Inl e, w1\<lparr>fs := f1\<rparr>)
                      | Inr f2 \<Rightarrow> Some (Inr (local_image_tag L dn props), w1\<lparr>fs := f2\<rparr>)))))"
    by (subst download_image_props[of L tag props]) simp_all
  with a show "download_image L gc ad dn tag w = Some (Inr tag, w1)"
    by (simp add: bind_res_simps)
  from a show "fs w1 = fs w" by (auto dest: get_fs)
next
  assume a: "parse_attrs L tag = Some props \<and> map_of props ''data'' \<noteq> None \<and>
    map_of props ''data-attachment'' \<noteq> None \<and>
    \<not> path_exists w (path_div ad (the (map_of props ''data-attachment''))) \<and>
    get gc (the (map_of props ''data'')) None w = Some (Inr None, w1)"
  then have "download_attachment L gc ad dn tag w =
      bind_res (get gc (the (map_of props ''data'')) None w) (\<lambda>req w1.
           (case req of
              None \<Rightarrow> Some (Inr tag, w1)
            | Some r \<Rightarrow>
                (case mkdir_exist_ok (fs w1) ad of
                   Inl e \<Rightarrow> Some (Inl e, w1)
                 | Inr f1 \<Rightarrow>
                     (case open_write f1 (path_div ad (the (map_of props ''data-attachment'')))
                             (content r) of
                        Inl e \<Rightarrow> Some (Inl e, w1\<lparr>fs := f1\<rparr>)
                      | Inr f2 \<Rightarrow> Some (Inr (local_object_tag L dn props), w1\<lparr>fs := f2\<rparr>)))))"
    by (subst download_attachment_props[of L tag props]) simp_all
  with a show "download_attachment L gc ad dn tag w = Some (Inr tag, w1)"
    by (simp add: bind_res_simps)
  from a show "fs w1 = fs w" by (auto dest: get_fs)
qed

lemma get_unavailable:
  "get unavailable url params w = Some (Inr None, w\<lparr>requests := requests w @ [(url, params)]\<rparr>)"
  by (subst get_step_other) (simp_all add: unavailable_def status_only_def)

lemma image_example:
  "parse_attrs lib0 img_tag = Some [(''src'', ''https://r/a''), (''data-src-type'', ''image/png'')]"
  "image_source [(''src'', ''https://r/a''), (''data-src-type'', ''image/png'')] = ''https://r/a''"
  "image_file lib0 [(''src'', ''https://r/a''), (''data-src-type'', ''image/png'')] = ''a.png''"
  by (simp_all add: lib0_def attrs0_def image_source_def image_file_def)

lemma object_example:
  "parse_attrs lib0 object_tag = Some [(''data-attachment'', ''a.pdf''), (''data'', ''https://r/b'')]"
  by (simp add: lib0_def attrs0_def img_tag_def object_tag_def)

lemma two_images_run:
  \<open>download_attachments lib0 serves_pages (img_tag @ img_tag) [''out''] ''P'' world_out =
     Some (Inr (''<img src="P.FILES/a.png" data-src-type="image/png" />'' @
                ''<img src="P.FILES/a.png" data-src-type="image/png" />''),
           \<lparr>requests = [(''https://r/a'', None)], slept = 0,
            fs = [[''out''] \<mapsto> Dir, [''out'', ''P.FILES''] \<mapsto> Dir,
                  [''out'', ''P.FILES'', ''a.png''] \<mapsto> File ''x'']\<rparr>)\<close>
  by (simp add: eval_defs img_tag_def object_tag_def world_out_def download_image_def lib0_def
      attrs0_def html0_def get_serves_pages)

lemma two_objects_run:
  \<open>download_attachments lib0 serves_pages (object_tag @ object_tag) [''out''] ''P'' world_out =
     Some (Inr (''<object data-attachment="a.pdf" data="P.FILES/a.pdf" ></object>'' @
                ''<object data-attachment="a.pdf" data="P.FILES/a.pdf" ></object>''),
           \<lparr>requests = [(''https://r/b'', None)], slept = 0,
            fs = [[''out''] \<mapsto> Dir, [''out'', ''P.FILES''] \<mapsto> Dir,
                  [''out'', ''P.FILES'', ''a.pdf''] \<mapsto> File ''x'']\<rparr>)\<close>
  by (simp add: eval_defs img_tag_def object_tag_def world_out_def download_attachment_def lib0_def
      attrs0_def html0_def get_serves_pages expand_object_def)

lemma unavailable_object_run:
  \<open>download_attachments lib0 unavailable object_tag [''out''] ''P'' world_out =
     Some (Inr ''<object data-attachment="a.pdf" data="https://r/b" ></object>'',
           world_out\<lparr>requests := [(''https://r/b'', None)]\<rparr>)\<close>
  by (simp add: eval_defs img_tag_def object_tag_def world_out_def download_attachment_def lib0_def
      attrs0_def html0_def get_unavailable expand_object_def)

text \<open>
  With the file present, neither handler issues a request. Two references to the same
  image, and two to the same attachment, cause one request each.
\<close>

theorem attachment_gate_witness:
  \<open>download_image lib0 serves_pages [''out'', ''P.FILES''] ''P.FILES'' img_tag
     (world_out\<lparr>fs := [[''out'', ''P.FILES'', ''a.png''] \<mapsto> File ''x'']\<rparr>) =
     Some (Inr ''<img src="P.FILES/a.png" data-src-type="image/png" />'',
           world_out\<lparr>fs := [[''out'', ''P.FILES'', ''a.png''] \<mapsto> File ''x'']\<rparr>) \<and>
   download_attachment lib0 serves_pages [''out'', ''P.FILES''] ''P.FILES'' object_tag
     (world_out\<lparr>fs := [[''out'', ''P.FILES'', ''a.pdf''] \<mapsto> File ''x'']\<rparr>) =
     Some (Inr ''<object data-attachment="a.pdf" data="P.FILES/a.pdf" />'',
           world_out\<lparr>fs := [[''out'', ''P.FILES'', ''a.pdf''] \<mapsto> File ''x'']\<rparr>) \<and>
   download_attachments lib0 serves_pages (img_tag @ img_tag) [''out''] ''P'' world_out =
     Some (Inr (''<img src="P.FILES/a.png" data-src-type="image/png" />'' @
                ''<img src="P.FILES/a.png" data-src-type="image/png" />''),
           \<lparr>requests = [(''https://r/a'', None)], slept = 0,
            fs = [[''out''] \<mapsto> Dir, [''out'', ''P.FILES''] \<mapsto> Dir,
                  [''out'', ''P.FILES'', ''a.png''] \<mapsto> File ''x'']\<rparr>) \<and>
   download_attachments lib0 serves_pages (object_tag @ object_tag) [''out''] ''P'' world_out =
     Some (Inr (''<object data-attachment="a.pdf" data="P.FILES/a.pdf" ></object>'' @
                ''<object data-attachment="a.pdf" data="P.FILES/a.pdf" ></object>''),
           \<lparr>requests = [(''https://r/b'', None)], slept = 0,
            fs = [[''out''] \<mapsto> Dir, [''out'', ''P.FILES''] \<mapsto> Dir,
                  [''out'', ''P.FILES'', ''a.pdf''] \<mapsto> File ''x'']\<rparr>)\<close>
proof -
  let ?ip = "[(''src'', ''https://r/a''), (''data-src-type'', ''image/png'')]"
  let ?op = "[(''data-attachment'', ''a.pdf''), (''data'', ''https://r/b'')]"
  let ?wi = "world_out\<lparr>fs := [[''out'', ''P.FILES'', ''a.png''] \<mapsto> File ''x'']\<rparr>"
  let ?wo = "world_out\<lparr>fs := [[''out'', ''P.FILES'', ''a.pdf''] \<mapsto> File ''x'']\<rparr>"
  have i: "download_image lib0 serves_pages [''out'', ''P.FILES''] ''P.FILES'' img_tag ?wi =
      Some (Inr (local_image_tag lib0 ''P.FILES'' ?ip), ?wi)"
    using attachment_gate[of lib0 img_tag ?ip ?wi "[''out'', ''P.FILES'']" serves_pages "''P.FILES''"]
    by (simp add: image_example path_exists_def node_at_def path_div_def str_parts_def)
  have o: "download_attachment lib0 serves_pages [''out'', ''P.FILES''] ''P.FILES'' object_tag ?wo =
      Some (Inr (local_object_tag lib0 ''P.FILES'' ?op), ?wo)"
    using attachment_gate[of lib0 object_tag ?op ?wo "[''out'', ''P.FILES'']" serves_pages "''P.FILES''"]
    by (simp add: object_example path_exists_def node_at_def path_div_def str_parts_def)
  show ?thesis
    using i o two_images_run two_objects_run
    by (simp add: local_image_tag_def local_object_tag_def image_example lib0_def html0_def
        image_file_def)
qed

text \<open>On a remote that times out, both handlers return the tag they were given.\<close>

lemma unavailable_keeps_tag_example:
  "download_image lib0 unavailable [''out'', ''P.FILES''] ''P.FILES'' img_tag world_out =
     Some (Inr img_tag, world_out\<lparr>requests := [(''https://r/a'', None)]\<rparr>) \<and>
   download_attachment lib0 unavailable [''out'', ''P.FILES''] ''P.FILES'' object_tag world_out =
     Some (Inr object_tag, world_out\<lparr>requests := [(''https://r/b'', None)]\<rparr>)"
  using unavailable_keeps_tag[of lib0 img_tag
      "[(''src'', ''https://r/a''), (''data-src-type'', ''image/png'')]" world_out
      "[''out'', ''P.FILES'']" unavailable "world_out\<lparr>requests := [(''https://r/a'', None)]\<rparr>"
      "''P.FILES''"]
    unavailable_keeps_tag[of lib0 object_tag
      "[(''data-attachment'', ''a.pdf''), (''data'', ''https://r/b'')]" world_out
      "[''out'', ''P.FILES'']" unavailable "world_out\<lparr>requests := [(''https://r/b'', None)]\<rparr>"
      "''P.FILES''"]
  by (simp add: image_example object_example get_unavailable path_exists_def node_at_def
      path_div_def str_parts_def world_out_def)

text \<open>
  The resolver as a whole does not leave the text of an object tag as it was: after the
  handler has returned the tag, the last substitution of \<open>download_attachments\<close> turns
  the self-closing tag into an opening and a closing tag (the reference still points at
  the remote URL).
\<close>

theorem unavailable_object_counterexample:
  \<open>download_attachments lib0 unavailable object_tag [''out''] ''P'' world_out =
     Some (Inr ''<object data-attachment="a.pdf" data="https://r/b" ></object>'',
           world_out\<lparr>requests := [(''https://r/b'', None)]\<rparr>) \<and>
   ''<object data-attachment="a.pdf" data="https://r/b" ></object>'' \<noteq> object_tag\<close>
  using unavailable_object_run by (simp add: object_tag_def)

subsection \<open>Unavailable list endpoints\<close>

lemma get_json_unavailable:
  assumes "url \<noteq> []"
    "status_code (gc (requests w) (url, params)) = 500 \<or>
     status_code (gc (requests w) (url, params)) = 504"
  shows "get_json gc url params w =
     Some (Inl AttributeError, w\<lparr>requests := requests w @ [(url, params)]\<rparr>)"
proof -
  have "get gc url params w = Some (Inr None, w\<lparr>requests := requests w @ [(url, params)]\<rparr>)"
    using assms(2) by (subst get_step_other) auto
  then show ?thesis
    unfolding get_json_def using assms(1) by (subst get_json_loop.simps) simp
qed

text \<open>
  C1 fails for the pagination reader: when the list of notebooks is answered with 500
  or with 504, \<open>get\<close> returns \<^verbatim>\<open>None\<close>, \<open>get_json\<close> calls \<^verbatim>\<open>.json()\<close> on it, and the run
  ends with \<^verbatim>\<open>AttributeError\<close>.
\<close>

theorem listing_unavailable_aborts:
  "download_notebooks lib0 (\<lambda>h rq. status_only 500) [''out''] [] world0 =
     Some (Inl AttributeError,
           world0\<lparr>requests := [(graph_url @ ''/me/onenote/notebooks'', None)]\<rparr>) \<and>
   download_notebooks lib0 unavailable [''out''] [] world0 =
     Some (Inl AttributeError,
           world0\<lparr>requests := [(graph_url @ ''/me/onenote/notebooks'', None)]\<rparr>)"
  by (simp add: download_notebooks_def get_json_unavailable unavailable_def status_only_def
      bind_res_simps world0_def)

subsection \<open>Names used as path segments\<close>

lemma get_json_single:
  assumes "url \<noteq> []"
    "\<not> (400 \<le> status_code (gc (requests w) (url, params)) \<and>
        status_code (gc (requests w) (url, params)) < 600)"
    "json (gc (requests w) (url, params)) = Some \<lparr>value_field = Some vs, odata_nextLink = None\<rparr>"
  shows "get_json gc url params w = Some (Inr vs, w\<lparr>requests := requests w @ [(url, params)]\<rparr>)"
proof -
  have "get gc url params w =
    Some (Inr (Some (gc (requests w) (url, params))), w\<lparr>requests := requests w @ [(url, params)]\<rparr>)"
    using assms(2) by (rule get_ok)
  then show ?thesis
    unfolding get_json_def using assms(1,3)
    by (subst get_json_loop.simps) (simp add: get_json_loop.simps[of _ _ None])
qed

lemma get_one_section:
  "url \<noteq> ''pu?pagelevel=true'' \<Longrightarrow> get one_section url None w =
     Some (Inr (Some \<lparr>status_code = 200, json = None, content = ''x''\<rparr>),
           w\<lparr>requests := requests w @ [(url, None)]\<rparr>)"
  by (subst get_step_other) (simp_all add: one_section_def)

text \<open>
  C2 fails for the name of a section: \<open>download_sections\<close> appends the display name as
  it is. For a section named \<open>/tmp/x\<close> the page is written under \<open>/tmp/x.NOTES\<close>, outside
  the output directory, where the sanitized name would have been \<open>tmpx\<close>.
\<close>

theorem section_name_unsanitized:
  "download_sections lib0 one_section [(named ''/tmp/x'')\<lparr>pagesUrl := Some ''pu''\<rparr>]
     [''out''] [] world_out =
     Some (Inr (),
       \<lparr>requests = [(''pu?pagelevel=true'', None), (''u1'', None)], slept = 0,
        fs = [[''out''] \<mapsto> Dir,
              [''/'', ''tmp''] \<mapsto> Dir,
              [''/'', ''tmp'', ''x.NOTES''] \<mapsto> Dir,
              [''/'', ''tmp'', ''x.NOTES'', ''P.html''] \<mapsto> File ''x'']\<rparr>) \<and>
   sanitize_filepath lib0 (sanitize_filename lib0 ''/tmp/x'') = ''tmpx''"
proof -
  have "get_json one_section ''pu?pagelevel=true'' None world_out =
     Some (Inr [page ''P'' 1 0 ''u1''], world_out\<lparr>requests := [(''pu?pagelevel=true'', None)]\<rparr>)"
    by (subst get_json_single[where vs = "[page ''P'' 1 0 ''u1'']"])
       (simp_all add: one_section_def list_response_def world_out_def)
  then show ?thesis
    by (simp add: download_sections_def filter_items_def named_def bind_res_simps
        download_pages_def page_def eval_defs get_one_section lib0_def strip_slashes_def
        world_out_def)
qed

subsection \<open>The resolver when nothing is available\<close>

lemma find_close_prefix: "find_close d s = Some x \<Longrightarrow> \<exists>r. s = x @ r \<and> x \<noteq> []"
proof (induction s arbitrary: x)
  case Nil
  then show ?case by simp
next
  case (Cons c cs)
  show ?case
  proof (cases "c = CHR ''/'' \<and> take 1 cs = ''>''")
    case True
    then obtain r where "cs = CHR ''>'' # r" by (cases cs) auto
    with True Cons.prems show ?thesis by auto
  next
    case False
    with Cons.prems obtain y where y: "find_close d cs = Some y" "x = c # y"
      by (auto split: if_splits)
    from Cons.IH[OF y(1)] y(2) show ?thesis by auto
  qed
qed

lemma match_star_prefix: "match_star pre s = Some t \<Longrightarrow> \<exists>r. s = t @ r \<and> t \<noteq> []"
proof -
  assume a: "match_star pre s = Some t"
  then have p: "take (length pre) s = pre" by (auto simp: match_star_def split: if_splits)
  from a obtain x where x: "find_close True (drop (length pre) s) = Some x" "t = pre @ x"
    by (auto simp: match_star_def split: if_splits)
  from find_close_prefix[OF x(1)] obtain r where r: "drop (length pre) s = x @ r" "x \<noteq> []"
    by blast
  have "s = take (length pre) s @ drop (length pre) s" by simp
  with p r x show ?thesis by auto
qed

lemma finditer_text:
  "(\<forall>s t. m s = Some t \<longrightarrow> (\<exists>r. s = t @ r \<and> t \<noteq> [])) \<Longrightarrow>
   concat (map chunk_text (finditer m s)) = s"
proof (induction m s rule: finditer.induct)
  case (1 m)
  then show ?case by simp
next
  case (2 m c cs)
  show ?case
  proof (cases "m (c # cs)")
    case None
    with 2 show ?thesis by simp
  next
    case (Some t)
    from 2(3) Some obtain r where r: "c # cs = t @ r" "t \<noteq> []" by blast
    then obtain t' where t': "t = c # t'" by (cases t) auto
    with r have "cs = t' @ r" by simp
    then have d: "drop (length t - 1) cs = r" using t' by simp
    have "finditer m (c # cs) = Tag t # finditer m r"
      using Some d by simp
    then have "concat (map chunk_text (finditer m (c # cs))) =
               t @ concat (map chunk_text (finditer m r))"
      by simp
    also have "concat (map chunk_text (finditer m r)) = r"
      using 2(2)[OF Some 2(3)] d by simp
    finally show ?thesis using r(1) by simp
  qed
qed

lemma sub_cb_identity:
  assumes "\<And>t w1. t \<in> set (tags_of cs) \<Longrightarrow> fs w1 = fs w \<Longrightarrow>
             \<exists>w2. repl t w1 = Some (Inr t, w2) \<and> fs w2 = fs w"
    and "fs w0 = fs w"
  shows "\<exists>w'. sub_cb repl cs w0 = Some (Inr (concat (map chunk_text cs)), w') \<and> fs w' = fs w"
  using assms
proof (induction cs arbitrary: w0)
  case Nil
  then show ?case by simp
next
  case (Cons ch cs)
  show ?case
  proof (cases ch)
    case (Lit c)
    have "\<exists>w'. sub_cb repl cs w0 = Some (Inr (concat (map chunk_text cs)), w') \<and> fs w' = fs w"
      using Cons.prems Lit by (intro Cons.IH) auto
    with Lit show ?thesis by (auto simp: bind_res_simps)
  next
    case (Tag t)
    from Cons.prems(1)[of t w0] Tag Cons.prems(2) obtain w2 where
      w2: "repl t w0 = Some (Inr t, w2)" "fs w2 = fs w" by auto
    have "\<exists>w'. sub_cb repl cs w2 = Some (Inr (concat (map chunk_text cs)), w') \<and> fs w' = fs w"
      using Cons.prems Tag w2 by (intro Cons.IH) auto
    with Tag w2 show ?thesis by (auto simp: bind_res_simps)
  qed
qed

lemma sub_cb_Lit_append:
  "sub_cb repl (before @ rest) w =
     bind_res (sub_cb repl before w) (\<lambda>a w1.
       bind_res (sub_cb repl rest w1) (\<lambda>b w2. Some (Inr (a @ b), w2)))"
proof (induction before arbitrary: w)
  case Nil
  show ?case
    by (cases "sub_cb repl rest w") (auto simp: bind_res_def split: sum.splits)
next
  case (Cons ch before)
  show ?case
  proof (cases ch)
    case (Lit c)
    show ?thesis
      unfolding Lit append_Cons sub_cb.simps Cons.IH
      by (cases "sub_cb repl before w")
         (auto simp: bind_res_def split: sum.splits option.splits)
  next
    case (Tag t)
    show ?thesis
      unfolding Tag append_Cons sub_cb.simps Cons.IH
      by (cases "repl t w")
         (auto simp: bind_res_def split: sum.splits option.splits)
  qed
qed

lemma get_always_unavailable:
  "always_unavailable gc \<Longrightarrow>
   get gc url params w = Some (Inr None, w\<lparr>requests := requests w @ [(url, params)]\<rparr>)"
proof -
  assume a: "always_unavailable gc"
  then have s: "status_code (gc (requests w) (url, params)) = 500 \<or>
                status_code (gc (requests w) (url, params)) = 504"
    by (simp add: always_unavailable_def)
  then have "status_code (gc (requests w) (url, params)) \<noteq> 429" by auto
  from get_step_other[of gc w url params, OF this] s show ?thesis by (auto simp: Let_def)
qed

lemma image_handler_unavailable:
  assumes "always_unavailable gc" "image_pending L w ad t" "fs w1 = fs w"
  shows "\<exists>w2. download_image L gc ad dn t w1 = Some (Inr t, w2) \<and> fs w2 = fs w"
proof -
  from assms(2) obtain props where p: "parse_attrs L t = Some props"
    "map_of props ''src'' \<noteq> None" "map_of props ''data-src-type'' \<noteq> None"
    "\<not> path_exists w (path_div ad (image_file L props))"
    by (auto simp: image_pending_def split: option.splits)
  from p(4) assms(3) have ne: "\<not> path_exists w1 (path_div ad (image_file L props))"
    by (simp add: path_exists_def)
  have "download_image L gc ad dn t w1 =
        Some (Inr t, w1\<lparr>requests := requests w1 @ [(image_source props, None)]\<rparr>)"
    unfolding download_image_props[OF p(1,2,3)] using ne
    by (simp add: get_always_unavailable[OF assms(1)] bind_res_simps)
  with assms(3) show ?thesis by simp
qed

lemma object_handler_unavailable:
  assumes "always_unavailable gc" "object_pending L w ad t" "fs w1 = fs w"
  shows "\<exists>w2. download_attachment L gc ad dn t w1 = Some (Inr t, w2) \<and> fs w2 = fs w"
proof -
  from assms(2) obtain props where p: "parse_attrs L t = Some props"
    "map_of props ''data'' \<noteq> None" "map_of props ''data-attachment'' \<noteq> None"
    "\<not> path_exists w (path_div ad (the (map_of props ''data-attachment'')))"
    by (auto simp: object_pending_def split: option.splits)
  from p(4) assms(3) have ne:
    "\<not> path_exists w1 (path_div ad (the (map_of props ''data-attachment'')))"
    by (simp add: path_exists_def)
  have "download_attachment L gc ad dn t w1 =
        Some (Inr t, w1\<lparr>requests := requests w1 @ [(the (map_of props ''data''), None)]\<rparr>)"
    unfolding download_attachment_props[OF p(1,2,3)] using ne
    by (simp add: get_always_unavailable[OF assms(1)] bind_res_simps)
  with assms(3) show ?thesis by simp
qed

lemma resolver_all_unavailable:
  assumes "always_unavailable gc"
    and "\<forall>t\<in>set (tags_of (finditer (match_star ''<img '') html)).
           image_pending L w (path_div out_dir (page_title @ ''.FILES'')) t"
    and "\<forall>t\<in>set (tags_of (finditer (match_star ''<object '') html)).
           object_pending L w (path_div out_dir (page_title @ ''.FILES'')) t"
  shows "\<exists>w'. download_attachments L gc html out_dir page_title w =
            Some (Inr (sub_template expand_object (finditer (match_plus ''<object '') html)), w') \<and>
          fs w' = fs w"
proof -
  let ?ad = "path_div out_dir (page_title @ ''.FILES'')"
  let ?dn = "page_title @ ''.FILES''"
  have t1: "\<And>pre. concat (map chunk_text (finditer (match_star pre) html)) = html"
    by (rule finditer_text) (auto dest: match_star_prefix)
  have "\<exists>w1. sub_cb (download_image L gc ?ad ?dn) (finditer (match_star ''<img '') html) w =
      Some (Inr (concat (map chunk_text (finditer (match_star ''<img '') html))), w1) \<and> fs w1 = fs w"
    using assms(1,2) by (intro sub_cb_identity image_handler_unavailable) auto
  then obtain w1 where w1:
    "sub_cb (download_image L gc ?ad ?dn) (finditer (match_star ''<img '') html) w =
      Some (Inr html, w1)" "fs w1 = fs w"
    unfolding t1 by blast
  have "\<exists>w2. sub_cb (download_attachment L gc ?ad ?dn) (finditer (match_star ''<object '') html) w1 =
      Some (Inr (concat (map chunk_text (finditer (match_star ''<object '') html))), w2) \<and>
      fs w2 = fs w"
    using assms(1,3) w1(2) by (intro sub_cb_identity object_handler_unavailable) auto
  then obtain w2 where w2:
    "sub_cb (download_attachment L gc ?ad ?dn) (finditer (match_star ''<object '') html) w1 =
      Some (Inr html, w2)" "fs w2 = fs w"
    unfolding t1 by blast
  show ?thesis
    unfolding download_attachments_def Let_def w1(1) bind_res_simps w2(1)
    using w2(2) by simp
qed

lemma sub_cb_around:
  assumes "sub_cb repl before w = Some (Inr a, wa)" "repl t wa = Some (Inr r, wb)"
    "sub_cb repl rest wb = Some (Inr b, wc)"
  shows "sub_cb repl (before @ Tag t # rest) w = Some (Inr (a @ r @ b), wc)"
  unfolding sub_cb_Lit_append sub_cb.simps assms bind_res_simps by simp

text \<open>
  C9, as the code has it. For an image or object reference whose local file does not
  exist and whose fetch returns \<^verbatim>\<open>None\<close>, the handler returns the text of the tag as it
  was matched and leaves the file system as it was (no attachment directory, no file);
  the substitution that calls the handler therefore puts the tag's own text back between
  the results for the text before and after it. When every fetch is unavailable and no
  reference of the page has been downloaded before, the resolver as a whole leaves the
  file system as it was and returns the markup changed by nothing but its last
  substitution, the one that turns each self-closing object tag without a line break
  into an opening and a closing tag.
\<close>

theorem unavailable_reference_kept:
  "(parse_attrs L tag = Some props \<and> map_of props ''src'' \<noteq> None \<and>
    map_of props ''data-src-type'' \<noteq> None \<and>
    \<not> path_exists w (path_div ad (image_file L props)) \<and>
    get gc (image_source props) None w = Some (Inr None, w1) \<longrightarrow>
      download_image L gc ad dn tag w = Some (Inr tag, w1) \<and> fs w1 = fs w) \<and>
   (parse_attrs L tag = Some props \<and> map_of props ''data'' \<noteq> None \<and>
    map_of props ''data-attachment'' \<noteq> None \<and>
    \<not> path_exists w (path_div ad (the (map_of props ''data-attachment''))) \<and>
    get gc (the (map_of props ''data'')) None w = Some (Inr None, w1) \<longrightarrow>
      download_attachment L gc ad dn tag w = Some (Inr tag, w1) \<and> fs w1 = fs w) \<and>
   (sub_cb repl before v = Some (Inr a, va) \<and> repl t va = Some (Inr t, vb) \<and>
    sub_cb repl rest vb = Some (Inr b, vc) \<longrightarrow>
      sub_cb repl (before @ Tag t # rest) v = Some (Inr (a @ t @ b), vc)) \<and>
   (always_unavailable client \<and>
    (\<forall>t\<in>set (tags_of (finditer (match_star ''<img '') html)).
       image_pending L u (path_div out_dir (page_title @ ''.FILES'')) t) \<and>
    (\<forall>t\<in>set (tags_of (finditer (match_star ''<object '') html)).
       object_pending L u (path_div out_dir (page_title @ ''.FILES'')) t) \<longrightarrow>
      (\<exists>u'. download_attachments L client html out_dir page_title u =
               Some (Inr (sub_template expand_object (finditer (match_plus ''<object '') html)), u') \<and>
            fs u' = fs u))"
proof (intro conjI impI)
  assume "parse_attrs L tag = Some props \<and> map_of props ''src'' \<noteq> None \<and>
    map_of props ''data-src-type'' \<noteq> None \<and>
    \<not> path_exists w (path_div ad (image_file L props)) \<and>
    get gc (image_source props) None w = Some (Inr None, w1)"
  with unavailable_keeps_tag[of L tag props w ad gc w1 dn]
  show "download_image L gc ad dn tag w = Some (Inr tag, w1)" "fs w1 = fs w" by blast+
next
  assume "parse_attrs L tag = Some props \<and> map_of props ''data'' \<noteq> None \<and>
    map_of props ''data-attachment'' \<noteq> None \<and>
    \<not> path_exists w (path_div ad (the (map_of props ''data-attachment''))) \<and>
    get gc (the (map_of props ''data'')) None w = Some (Inr None, w1)"
  with unavailable_keeps_tag[of L tag props w ad gc w1 dn]
  show "download_attachment L gc ad dn tag w = Some (Inr tag, w1)" "fs w1 = fs w" by blast+
next
  assume "sub_cb repl before v = Some (Inr a, va) \<and> repl t va = Some (Inr t, vb) \<and>
    sub_cb repl rest vb = Some (Inr b, vc)"
  then show "sub_cb repl (before @ Tag t # rest) v = Some (Inr (a @ t @ b), vc)"
    using sub_cb_around[of repl before v a va t t vb rest b vc] by blast
next
  assume "always_unavailable client \<and>
    (\<forall>t\<in>set (tags_of (finditer (match_star ''<img '') html)).
       image_pending L u (path_div out_dir (page_title @ ''.FILES'')) t) \<and>
    (\<forall>t\<in>set (tags_of (finditer (match_star ''<object '') html)).
       object_pending L u (path_div out_dir (page_title @ ''.FILES'')) t)"
  then show "\<exists>u'. download_attachments L client html out_dir page_title u =
               Some (Inr (sub_template expand_object (finditer (match_plus ''<object '') html)), u') \<and>
            fs u' = fs u"
    by (intro resolver_all_unavailable) simp_all
qed

text \<open>
  On a remote that times out: both handlers return their tag, the image substitution
  keeps the tag between the text around it, and the resolver on a page with an image
  and a one-line object tag keeps the image tag and rewrites only the form of the object
  tag, creating nothing.
\<close>

lemma see_both_scans:
  "tags_of (finditer (match_star ''<img '') (''see '' @ img_tag @ object_tag)) = [img_tag]"
  "tags_of (finditer (match_star ''<object '') (''see '' @ img_tag @ object_tag)) = [object_tag]"
  \<open>sub_template expand_object (finditer (match_plus ''<object '') (''see '' @ img_tag @ object_tag)) =
     ''see '' @ img_tag @ ''<object data-attachment="a.pdf" data="https://r/b" ></object>''\<close>
  by (simp_all add: match_star_def match_plus_def img_tag_def object_tag_def expand_object_def)

lemma see_both_pending:
  "image_pending lib0 world_out (path_div [''out''] (''P'' @ ''.FILES'')) img_tag"
  "object_pending lib0 world_out (path_div [''out''] (''P'' @ ''.FILES'')) object_tag"
  by (simp_all add: image_pending_def object_pending_def image_example object_example
      path_exists_def node_at_def path_div_def str_parts_def world_out_def)

theorem unavailable_reference_kept_witness:
  \<open>download_image lib0 unavailable [''out'', ''P.FILES''] ''P.FILES'' img_tag world_out =
     Some (Inr img_tag, world_out\<lparr>requests := [(''https://r/a'', None)]\<rparr>) \<and>
   download_attachment lib0 unavailable [''out'', ''P.FILES''] ''P.FILES'' object_tag world_out =
     Some (Inr object_tag, world_out\<lparr>requests := [(''https://r/b'', None)]\<rparr>) \<and>
   sub_cb (download_image lib0 unavailable [''out'', ''P.FILES''] ''P.FILES'')
     ([Lit CHR ''a''] @ Tag img_tag # [Lit CHR ''b'']) world_out =
     Some (Inr (''a'' @ img_tag @ ''b''), world_out\<lparr>requests := [(''https://r/a'', None)]\<rparr>) \<and>
   (\<exists>u'. download_attachments lib0 unavailable (''see '' @ img_tag @ object_tag) [''out''] ''P''
            world_out =
          Some (Inr (''see '' @ img_tag @
                     ''<object data-attachment="a.pdf" data="https://r/b" ></object>''), u') \<and>
        fs u' = fs world_out)\<close>
proof -
  let ?ip = "[(''src'', ''https://r/a''), (''data-src-type'', ''image/png'')]"
  let ?op = "[(''data-attachment'', ''a.pdf''), (''data'', ''https://r/b'')]"
  let ?wa = "world_out\<lparr>requests := [(''https://r/a'', None)]\<rparr>"
  let ?wb = "world_out\<lparr>requests := [(''https://r/b'', None)]\<rparr>"
  let ?ad = "[''out'', ''P.FILES'']"
  let ?f = "download_image lib0 unavailable ?ad ''P.FILES''"
  have au: "always_unavailable unavailable"
    by (simp add: always_unavailable_def unavailable_def status_only_def)
  have ne: "\<not> path_exists world_out (path_div ?ad ''a.png'')"
    "\<not> path_exists world_out (path_div ?ad ''a.pdf'')"
    by (simp_all add: path_exists_def node_at_def path_div_def str_parts_def world_out_def)
  have ga: "get unavailable ''https://r/a'' None world_out = Some (Inr None, ?wa)"
    and gb: "get unavailable ''https://r/b'' None world_out = Some (Inr None, ?wb)"
    by (simp_all add: get_unavailable world_out_def)
  have i: "?f img_tag world_out = Some (Inr img_tag, ?wa)"
    using unavailable_reference_kept[where L = lib0 and tag = img_tag and props = ?ip
        and w = world_out and ad = ?ad and gc = unavailable and ?w1.0 = ?wa and dn = "''P.FILES''"]
      ne ga
    by (simp add: image_example)
  have o: "download_attachment lib0 unavailable ?ad ''P.FILES'' object_tag world_out =
      Some (Inr object_tag, ?wb)"
    using unavailable_reference_kept[where L = lib0 and tag = object_tag and props = ?op
        and w = world_out and ad = ?ad and gc = unavailable and ?w1.0 = ?wb and dn = "''P.FILES''"]
      ne gb
    by (simp add: object_example)
  have s: "sub_cb ?f ([Lit CHR ''a''] @ Tag img_tag # [Lit CHR ''b'']) world_out =
      Some (Inr (''a'' @ img_tag @ ''b''), ?wa)"
    using unavailable_reference_kept[where repl = ?f and before = "[Lit CHR ''a'']"
        and v = world_out and a = "''a''" and va = world_out and t = img_tag and vb = ?wa
        and rest = "[Lit CHR ''b'']" and b = "''b''" and vc = ?wa] i
    by (simp add: bind_res_simps)
  have r: "\<exists>u'. download_attachments lib0 unavailable (''see '' @ img_tag @ object_tag) [''out''] ''P''
            world_out =
          Some (Inr (sub_template expand_object
                 (finditer (match_plus ''<object '') (''see '' @ img_tag @ object_tag))), u') \<and>
        fs u' = fs world_out"
    using unavailable_reference_kept[where client = unavailable and L = lib0
        and html = "''see '' @ img_tag @ object_tag" and u = world_out and out_dir = "[''out'']"
        and page_title = "''P''"] au see_both_pending
    unfolding see_both_scans(1,2) by simp
  show ?thesis
    using i o s r unfolding see_both_scans(3) by blast
qed

subsection \<open>What every step of a run keeps\<close>





lemma ext_node_at:
  "ext f g \<Longrightarrow> node_at f p = Some n \<Longrightarrow> \<exists>n'. node_at g p = Some n' \<and> (n' = Dir) = (n = Dir)"
  by (auto simp: ext_def node_at_def split: if_splits)

lemma ext_exists: "ext (fs w) (fs v) \<Longrightarrow> path_exists w p \<Longrightarrow> path_exists v p"
  unfolding path_exists_def using ext_node_at by fastforce

lemma ext_is_dir: "ext f g \<Longrightarrow> is_dir f p \<Longrightarrow> is_dir g p"
  unfolding is_dir_def using ext_node_at by fastforce




lemma mkdir_parents_present: "is_dir f p \<Longrightarrow> mkdir_parents f p = Inr f"
  by (subst mkdir_parents.simps) (simp add: os_mkdir_def is_dir_def)


lemma bind_res_Some:
  "bind_res m k = Some (r, w') \<Longrightarrow>
   (\<exists>e. m = Some (Inl e, w') \<and> r = Inl e) \<or> (\<exists>x w1. m = Some (Inr x, w1) \<and> k x w1 = Some (r, w'))"
  by (auto simp: bind_res_def split: option.splits sum.splits prod.splits)

lemma bind_res_Inr:
  "bind_res m k = Some (Inr y, w') \<Longrightarrow> \<exists>x w1. m = Some (Inr x, w1) \<and> k x w1 = Some (Inr y, w')"
  by (auto dest: bind_res_Some)












lemma step_ok_fs_eq: "step_ok gc e w w' \<Longrightarrow> fs v = fs w \<Longrightarrow> requests v = requests w \<Longrightarrow>
    step_ok gc e v w'"
  by (simp add: step_ok_def)





























end
